theory Spec2Isabelle
  imports Main "HOL-Library.Word"
begin

unbundle bit_operations_syntax

section \<open>Reliable UDP file transfer: wire codec, receiver and sender\<close>

text \<open>
  A shallow embedding of the C sources \<^verbatim>\<open>crc32.c\<close>, \<^verbatim>\<open>protocol.c\<close>,
  \<^verbatim>\<open>util.c\<close>, \<^verbatim>\<open>server/main.c\<close> and \<^verbatim>\<open>client/main.c\<close>.

  Conventions of the embedding:
  \<^item> \<^verbatim>\<open>uint8_t\<close>, \<^verbatim>\<open>uint16_t\<close>, \<^verbatim>\<open>uint32_t\<close> and \<^verbatim>\<open>uint64_t\<close> are words of that
    width; arithmetic on them wraps.
  \<^item> \<^verbatim>\<open>size_t\<close> is taken to be 64 bits wide (LP64). Counters of that type are natural
    numbers; every place where a value is narrowed to 32 or 16 bits is written out
    (\<open>of_nat\<close> into a word); the counters stay far below \<open>2 ^ 64\<close>, since they
    advance by one and are bounded by a 32-bit sequence number or by the number of chunks.
  \<^item> A buffer given by a pointer and a size is the list of its octets; the null pointer
    with size zero is the empty list.
  \<^item> \<^verbatim>\<open>malloc\<close> is assumed to succeed (also for a request of zero bytes, as in glibc),
    so the branches that only release memory and give up are not part of the model.
  \<^item> The clock, the result of \<^verbatim>\<open>fopen\<close> and the datagrams that arrive are inputs.
\<close>

type_synonym u8 = "8 word"
type_synonym u16 = "16 word"
type_synonym u32 = "32 word"
type_synonym u64 = "64 word"

subsection \<open>CRC-32 (\<^verbatim>\<open>crc32.c\<close>)\<close>

text \<open>One round of the inner loop of \<^verbatim>\<open>init_table\<close>:
  \<^verbatim>\<open>if (c & 1) c = 0xEDB88320u ^ (c >> 1); else c >>= 1;\<close>\<close>

definition crc_shift :: "u32 \<Rightarrow> u32" where
  "crc_shift c = (if c AND 1 \<noteq> 0 then 0xEDB88320 XOR drop_bit 1 c else drop_bit 1 c)"

text \<open>The inner loop \<^verbatim>\<open>for (j = 0; j < 8; j++)\<close>, with the number of rounds left.\<close>

fun table_inner :: "nat \<Rightarrow> u32 \<Rightarrow> u32" where
  "table_inner 0 c = c"
| "table_inner (Suc j) c = table_inner j (crc_shift c)"

text \<open>The static table after \<^verbatim>\<open>init_table\<close>: entry \<open>i\<close> for \<open>i = 0, \<dots>, 255\<close>.\<close>

definition init_table :: "u32 list" where
  "init_table = map (\<lambda>i. table_inner 8 (of_nat i)) [0..<256]"

text \<open>The loop body of \<^verbatim>\<open>ru_crc32\<close>:
  \<^verbatim>\<open>c = table[(c ^ data[i]) & 0xFFu] ^ (c >> 8);\<close>\<close>

definition crc_update :: "u32 \<Rightarrow> u8 \<Rightarrow> u32" where
  "crc_update c b = (init_table ! unat ((c XOR ucast b) AND 0xFF)) XOR drop_bit 8 c"

definition ru_crc32 :: "u8 list \<Rightarrow> u32" where
  "ru_crc32 data = foldl crc_update 0xFFFFFFFF data XOR 0xFFFFFFFF"

text \<open>
  The bitwise reference definition of the reflected CRC-32 of IEEE 802.3, following the
  words of the specification: the register starts at \<open>0xFFFFFFFF\<close>; every octet is
  xor-ed into the low end of the register, which is then shifted right eight times, one bit
  at a time, the reflected polynomial \<open>0xEDB88320\<close> being xor-ed in whenever a one is
  shifted out; the result is the register xor-ed with \<open>0xFFFFFFFF\<close>.
\<close>

definition ref_bit :: "u32 \<Rightarrow> u32" where
  "ref_bit r = (if bit r 0 then drop_bit 1 r XOR 0xEDB88320 else drop_bit 1 r)"

fun ref_bits :: "nat \<Rightarrow> u32 \<Rightarrow> u32" where
  "ref_bits 0 r = r"
| "ref_bits (Suc k) r = ref_bits k (ref_bit r)"

definition ref_byte :: "u32 \<Rightarrow> u8 \<Rightarrow> u32" where
  "ref_byte r b = ref_bits 8 (r XOR ucast b)"

definition crc32_reference :: "u8 list \<Rightarrow> u32" where
  "crc32_reference data = foldl ref_byte 0xFFFFFFFF data XOR 0xFFFFFFFF"

subsection \<open>Wire codec (\<^verbatim>\<open>protocol.h\<close>, \<^verbatim>\<open>protocol.c\<close>)\<close>

definition VERSION :: u8 where "VERSION = 1"
definition HEADER_SIZE :: nat where "HEADER_SIZE = 20"

definition PT_HANDSHAKE :: u8 where "PT_HANDSHAKE = 0"
definition PT_HANDSHAKE_ACK :: u8 where "PT_HANDSHAKE_ACK = 1"
definition PT_DATA :: u8 where "PT_DATA = 2"
definition PT_ACK :: u8 where "PT_ACK = 3"
definition PT_FIN :: u8 where "PT_FIN = 4"
definition PT_FIN_ACK :: u8 where "PT_FIN_ACK = 5"
definition PT_ERROR :: u8 where "PT_ERROR = 6"

text \<open>
  The struct \<^verbatim>\<open>Packet\<close>. The fields \<^verbatim>\<open>total\<close>, \<^verbatim>\<open>length\<close> and \<^verbatim>\<open>window\<close> carry the
  suffix \<open>_p\<close>. The pair \<^verbatim>\<open>payload\<close>, \<^verbatim>\<open>payload_size\<close> is the list \<open>payload\<close>.
  \<^verbatim>\<open>ptype\<close> is a \<^verbatim>\<open>uint8_t\<close>, not the enum: any octet can arrive in it.
\<close>

record Packet =
  magic0 :: u8
  magic1 :: u8
  version :: u8
  ptype :: u8
  seq :: u32
  total_p :: u32
  length_p :: u16
  window_p :: u16
  checksum :: u32
  payload :: "u8 list"

text \<open>\<^verbatim>\<open>htons\<close>/\<^verbatim>\<open>htonl\<close> followed by \<^verbatim>\<open>memcpy\<close>: the octets in network (big-endian) order.\<close>

definition be16 :: "u16 \<Rightarrow> u8 list" where
  "be16 w = [ucast (drop_bit 8 w), ucast w]"

definition be32 :: "u32 \<Rightarrow> u8 list" where
  "be32 w = [ucast (drop_bit 24 w), ucast (drop_bit 16 w), ucast (drop_bit 8 w), ucast w]"

text \<open>\<^verbatim>\<open>memcpy\<close> out of the buffer at an offset followed by \<^verbatim>\<open>ntohs\<close>/\<^verbatim>\<open>ntohl\<close>.\<close>

definition rd16 :: "u8 list \<Rightarrow> nat \<Rightarrow> u16" where
  "rd16 buf off = push_bit 8 (ucast (buf ! off)) OR ucast (buf ! (off + 1))"

definition rd32 :: "u8 list \<Rightarrow> nat \<Rightarrow> u32" where
  "rd32 buf off = push_bit 24 (ucast (buf ! off)) OR push_bit 16 (ucast (buf ! (off + 1)))
     OR push_bit 8 (ucast (buf ! (off + 2))) OR ucast (buf ! (off + 3))"

text \<open>
  \<^verbatim>\<open>pack\<close>. The length on the wire is \<^verbatim>\<open>(uint16_t)p->payload_size\<close>; the field
  \<^verbatim>\<open>length\<close> of the struct is not read. The checksum is computed for a DATA packet
  whose checksum field is zero and whose payload is not empty.
\<close>

definition pack_checksum :: "Packet \<Rightarrow> u32" where
  "pack_checksum p =
     (if ptype p = PT_DATA \<and> checksum p = 0 \<and> payload p \<noteq> []
      then ru_crc32 (payload p) else checksum p)"

definition pack :: "Packet \<Rightarrow> u8 list" where
  "pack p =
     [magic0 p, magic1 p, version p, ptype p]
     @ be32 (seq p) @ be32 (total_p p)
     @ be16 (of_nat (length (payload p))) @ be16 (window_p p)
     @ be32 (pack_checksum p)
     @ payload p"

text \<open>The return codes \<open>-1\<close>, \<open>-2\<close> and \<open>-3\<close> of \<^verbatim>\<open>unpack\<close>.\<close>

datatype unpack_error = ShortHeader | BadMagic | TruncatedPayload

definition unpack :: "u8 list \<Rightarrow> unpack_error + Packet" where
  "unpack buf =
     (if length buf < HEADER_SIZE then Inl ShortHeader
      else if buf ! 0 \<noteq> 0x52 \<or> buf ! 1 \<noteq> 0x55 \<or> buf ! 2 \<noteq> VERSION then Inl BadMagic
      else if HEADER_SIZE + unat (rd16 buf 12) > length buf then Inl TruncatedPayload
      else Inr \<lparr> magic0 = buf ! 0, magic1 = buf ! 1, version = buf ! 2, ptype = buf ! 3,
                 seq = rd32 buf 4, total_p = rd32 buf 8, length_p = rd16 buf 12,
                 window_p = rd16 buf 14, checksum = rd32 buf 16,
                 payload = take (unat (rd16 buf 12)) (drop HEADER_SIZE buf) \<rparr>)"

text \<open>The condition on a datagram under which decoding and encoding again gives it back:
  at least 20 octets, the magic octets and the version, and a length field equal to the
  number of octets after the header.\<close>

definition well_formed :: "u8 list \<Rightarrow> bool" where
  "well_formed x \<longleftrightarrow>
     HEADER_SIZE \<le> length x \<and> x ! 0 = 0x52 \<and> x ! 1 = 0x55 \<and> x ! 2 = VERSION
     \<and> unat (rd16 x 12) = length x - HEADER_SIZE"

text \<open>A DATA datagram with a payload whose checksum field is zero although the CRC-32 of
  the payload is not: \<^verbatim>\<open>pack\<close> replaces its checksum.\<close>

definition unset_checksum :: "u8 list \<Rightarrow> bool" where
  "unset_checksum x \<longleftrightarrow>
     x ! 3 = PT_DATA \<and> rd32 x 16 = 0 \<and> HEADER_SIZE < length x
     \<and> ru_crc32 (drop HEADER_SIZE x) \<noteq> 0"

text \<open>The test on the magic octets and the version made by \<^verbatim>\<open>unpack\<close>.\<close>

definition magic_ok :: "u8 list \<Rightarrow> bool" where
  "magic_ok buf \<longleftrightarrow> buf ! 0 = 0x52 \<and> buf ! 1 = 0x55 \<and> buf ! 2 = VERSION"

subsection \<open>String helpers (\<^verbatim>\<open>util.c\<close> and the C library)\<close>

text \<open>
  A C string is the list of its octets without the terminating NUL. A payload copied
  into a buffer and terminated by NUL reads as a string up to its first NUL octet.
\<close>

definition c_string :: "u8 list \<Rightarrow> u8 list" where
  "c_string bytes = takeWhile (\<lambda>b. b \<noteq> 0) bytes"

definition bytes_of :: "string \<Rightarrow> u8 list" where
  "bytes_of s = map (\<lambda>c. of_nat (of_char c)) s"

text \<open>
  \<^verbatim>\<open>split\<close>: the scan over the string, with the part collected since the last
  delimiter. The last part is added at the end of the string, so the result has one part
  more than the string has delimiters; \<^verbatim>\<open>*count\<close> is the length of the result.
\<close>

fun split_loop :: "u8 \<Rightarrow> u8 list \<Rightarrow> u8 list \<Rightarrow> u8 list list" where
  "split_loop delim cur [] = [cur]"
| "split_loop delim cur (c # cs) =
     (if c = delim then cur # split_loop delim [] cs
      else split_loop delim (cur @ [c]) cs)"

definition split :: "u8 list \<Rightarrow> u8 \<Rightarrow> u8 list list" where
  "split s delim = split_loop delim [] s"

text \<open>
  \<^verbatim>\<open>atoll\<close> of the C library, as the C standard describes it (\<^verbatim>\<open>strtoll\<close> in base 10):
  white space is skipped, an optional sign is read, then the longest run of decimal digits
  is converted; when there is no digit the result is 0. A value out of the range of
  \<^verbatim>\<open>long long\<close> is clamped, as \<^verbatim>\<open>strtoll\<close> does.
\<close>

definition isspace :: "u8 \<Rightarrow> bool" where
  "isspace c \<longleftrightarrow> c = 0x20 \<or> (0x09 \<le> c \<and> c \<le> 0x0D)"

definition isdigit :: "u8 \<Rightarrow> bool" where
  "isdigit c \<longleftrightarrow> 0x30 \<le> c \<and> c \<le> 0x39"

fun digits_value :: "int \<Rightarrow> u8 list \<Rightarrow> int" where
  "digits_value acc [] = acc"
| "digits_value acc (c # cs) =
     (if isdigit c then digits_value (acc * 10 + (uint c - 48)) cs else acc)"

definition clamp_ll :: "int \<Rightarrow> int" where
  "clamp_ll v = max (- (2 ^ 63)) (min (2 ^ 63 - 1) v)"

definition atoll :: "u8 list \<Rightarrow> int" where
  "atoll s =
     (case dropWhile isspace s of
        [] \<Rightarrow> 0
      | c # cs \<Rightarrow>
          if c = 0x2D then clamp_ll (- digits_value 0 cs)
          else if c = 0x2B then clamp_ll (digits_value 0 cs)
          else clamp_ll (digits_value 0 (c # cs)))"

text \<open>The cast \<^verbatim>\<open>(size_t)\<close> of a \<^verbatim>\<open>long long\<close>.\<close>

definition size_t_of :: "int \<Rightarrow> nat" where
  "size_t_of v = nat (v mod 2 ^ 64)"

text \<open>The digits that \<^verbatim>\<open>atoll\<close> converts: those that follow the white space and the
  sign. A field is non-numeric when there are none.\<close>

definition leading_digits :: "u8 list \<Rightarrow> u8 list" where
  "leading_digits s =
     (case dropWhile isspace s of
        [] \<Rightarrow> []
      | c # cs \<Rightarrow> takeWhile isdigit (if c = 0x2D \<or> c = 0x2B then cs else c # cs))"

definition non_numeric :: "u8 list \<Rightarrow> bool" where
  "non_numeric s \<longleftrightarrow> leading_digits s = []"

subsection \<open>Receiver (\<^verbatim>\<open>server/main.c\<close>)\<close>

text \<open>
  The struct \<^verbatim>\<open>Session\<close>. \<open>key\<close> is the text \<^verbatim>\<open>ip:port\<close> that \<^verbatim>\<open>addr_key\<close> makes of
  the peer address. \<open>ofs\<close> stands for the open stream: the octets handed to \<^verbatim>\<open>fwrite\<close>
  on it so far (a short write is only logged by the source). \<open>total\<close> carries the suffix
  \<open>_s\<close>. The field \<^verbatim>\<open>target_path\<close>, a formatted file name that is only passed to
  \<^verbatim>\<open>fopen\<close> and to the log, is left out.
\<close>

record Session =
  key :: string
  ofs :: "u8 list"
  filename :: "u8 list"
  expected :: nat
  total_s :: nat
  received :: nat
  active :: bool
  session_id :: u32
  last_activity :: u64

text \<open>\<^verbatim>\<open>find_session\<close> returns a pointer to the first entry with the key: its index.\<close>

fun find_session :: "Session list \<Rightarrow> string \<Rightarrow> nat option" where
  "find_session [] k = None"
| "find_session (s # ss) k =
     (if key s = k then Some 0 else map_option Suc (find_session ss k))"

text \<open>\<^verbatim>\<open>remove_session\<close>: the entries after the index move down by one.\<close>

definition remove_session :: "Session list \<Rightarrow> nat \<Rightarrow> Session list" where
  "remove_session ss i = take i ss @ drop (Suc i) ss"

text \<open>\<^verbatim>\<open>cleanup_old_session\<close>: the first entry with the key is closed and removed.\<close>

fun cleanup_old_session :: "Session list \<Rightarrow> string \<Rightarrow> Session list" where
  "cleanup_old_session [] k = []"
| "cleanup_old_session (s # ss) k =
     (if key s = k then ss else s # cleanup_old_session ss k)"

text \<open>\<^verbatim>\<open>cleanup_inactive_sessions\<close>: the loop runs from the last index down to 0; the
  first argument of the loop is the number of indices still to visit.\<close>

fun cleanup_inactive_loop :: "nat \<Rightarrow> u64 \<Rightarrow> Session list \<Rightarrow> Session list" where
  "cleanup_inactive_loop 0 now ss = ss"
| "cleanup_inactive_loop (Suc i) now ss =
     cleanup_inactive_loop i now
       (if now - last_activity (ss ! i) > 30000 then remove_session ss i else ss)"

definition cleanup_inactive_sessions :: "u64 \<Rightarrow> Session list \<Rightarrow> Session list" where
  "cleanup_inactive_sessions now ss = cleanup_inactive_loop (length ss) now ss"

text \<open>A packet after \<^verbatim>\<open>memset(&p, 0, sizeof(p))\<close> and the assignment of the magic
  octets, the version and the type.\<close>

definition control_packet :: "u8 \<Rightarrow> Packet" where
  "control_packet t =
     \<lparr> magic0 = 0x52, magic1 = 0x55, version = VERSION, ptype = t, seq = 0, total_p = 0,
       length_p = 0, window_p = 0, checksum = 0, payload = [] \<rparr>"

definition error_packet :: "string \<Rightarrow> Packet" where
  "error_packet msg = (control_packet PT_ERROR)\<lparr>payload := bytes_of msg\<rparr>"

text \<open>\<^verbatim>\<open>ack.seq = (s->expected > 0) ? s->expected - 1 : 0\<close>, narrowed to 32 bits.\<close>

definition ack_seq :: "nat \<Rightarrow> u32" where
  "ack_seq e = (if e > 0 then of_nat (e - 1) else 0)"

definition ack_packet :: "nat \<Rightarrow> Packet" where
  "ack_packet e = (control_packet PT_ACK)\<lparr>seq := ack_seq e\<rparr>"

definition handshake_ack_packet :: "nat \<Rightarrow> u16 \<Rightarrow> Packet" where
  "handshake_ack_packet tot win =
     (control_packet PT_HANDSHAKE_ACK)\<lparr>total_p := of_nat tot, window_p := win\<rparr>"

definition MAX_SESSIONS :: nat where "MAX_SESSIONS = 100"

text \<open>
  The handlers return the new session table and the datagrams sent back to the peer.
  \<open>win\<close> is \<^verbatim>\<open>args.window\<close>, \<open>k\<close> the key of the peer, \<open>t1\<close> and \<open>t2\<close> the two readings
  of the clock, \<open>fopen_ok\<close> whether the output file could be created.
\<close>

definition new_session :: "string \<Rightarrow> u8 list list \<Rightarrow> u64 \<Rightarrow> u64 \<Rightarrow> Session" where
  "new_session k parts t1 t2 =
     \<lparr> key = take 255 k, ofs = [], filename = take 255 (parts ! 0), expected = 0,
       total_s = size_t_of (atoll (parts ! 2)), received = 0, active = True,
       session_id = ucast t2, last_activity = t1 \<rparr>"

definition handle_handshake ::
  "u16 \<Rightarrow> string \<Rightarrow> Packet \<Rightarrow> u64 \<Rightarrow> u64 \<Rightarrow> bool \<Rightarrow> Session list \<Rightarrow> Session list \<times> u8 list list"
where
  "handle_handshake win k p t1 t2 fopen_ok ss =
     (let parts = split (c_string (payload p)) 0x7C in
      if length parts < 5 then (ss, [pack (error_packet ''bad handshake'')])
      else
        let ss1 = cleanup_old_session ss k in
        if length ss1 \<ge> MAX_SESSIONS then (ss1, [])
        else
          let s = new_session k parts t1 t2 in
          if \<not> fopen_ok then (ss1, [])
          else (ss1 @ [s], [pack (handshake_ack_packet (total_s s) win)]))"

definition handle_data ::
  "string \<Rightarrow> Packet \<Rightarrow> u64 \<Rightarrow> Session list \<Rightarrow> Session list \<times> u8 list list"
where
  "handle_data k p t1 ss =
     (case find_session ss k of
        None \<Rightarrow> (ss, [pack (error_packet ''no session'')])
      | Some i \<Rightarrow>
          let s = (ss ! i)\<lparr>last_activity := t1\<rparr> in
          if ru_crc32 (payload p) \<noteq> checksum p
          then (ss[i := s], [pack (ack_packet (expected s))])
          else
            let s' = (if unat (seq p) = expected s
                      then s\<lparr>ofs := ofs s @ payload p, expected := expected s + 1,
                             received := received s + 1\<rparr>
                      else s)
            in (ss[i := s'], [pack (ack_packet (expected s'))]))"

definition handle_fin :: "string \<Rightarrow> Session list \<Rightarrow> Session list \<times> u8 list list" where
  "handle_fin k ss =
     (case find_session ss k of
        None \<Rightarrow> (ss, [pack (control_packet PT_FIN_ACK)])
      | Some i \<Rightarrow> (remove_session ss i, [pack (control_packet PT_FIN_ACK)]))"

definition handle_datagram ::
  "u16 \<Rightarrow> string \<Rightarrow> u8 list \<Rightarrow> u64 \<Rightarrow> u64 \<Rightarrow> bool \<Rightarrow> Session list \<Rightarrow> Session list \<times> u8 list list"
where
  "handle_datagram win k buf t1 t2 fopen_ok ss =
     (case unpack buf of
        Inl e \<Rightarrow> (ss, [])
      | Inr p \<Rightarrow>
          if ptype p = PT_HANDSHAKE then handle_handshake win k p t1 t2 fopen_ok ss
          else if ptype p = PT_DATA then handle_data k p t1 ss
          else if ptype p = PT_FIN then handle_fin k ss
          else (ss, []))"

text \<open>
  One turn of the receive loop, by what \<^verbatim>\<open>recvfrom\<close> returns.
  \<open>Recv k buf t1 t2 fopen_ok\<close>: \<^verbatim>\<open>n > 0\<close>, the \<open>n\<close> octets \<open>buf\<close> of a datagram from the
  peer with key \<open>k\<close>. \<open>WouldBlock now now'\<close>: \<^verbatim>\<open>n <= 0\<close> with \<^verbatim>\<open>errno\<close> equal to
  \<^verbatim>\<open>EAGAIN\<close> or \<^verbatim>\<open>EWOULDBLOCK\<close>; \<open>now\<close> is the clock read by the loop and \<open>now'\<close> the one
  read inside \<^verbatim>\<open>cleanup_inactive_sessions\<close>. \<open>RecvError\<close>: \<^verbatim>\<open>n <= 0\<close> with any other
  \<^verbatim>\<open>errno\<close>. A datagram of zero octets gives \<^verbatim>\<open>n = 0\<close>: the source tests \<^verbatim>\<open>n <= 0\<close>
  before it decodes, so such a datagram is a \<open>WouldBlock\<close> or a \<open>RecvError\<close> turn, according
  to the value that \<^verbatim>\<open>errno\<close> was left with, and the idle sweep can run on it. A \<open>Recv\<close>
  turn with no octets is not decoded either; it is taken as the error branch.
\<close>

datatype event = Recv string "u8 list" u64 u64 bool | WouldBlock u64 u64 | RecvError

record server_state =
  sessions :: "Session list"
  last_cleanup :: u64

fun server_step :: "u16 \<Rightarrow> event \<Rightarrow> server_state \<Rightarrow> server_state \<times> u8 list list" where
  "server_step win (Recv k buf t1 t2 fopen_ok) st =
     (if length buf \<le> 0 then (st, [])
      else
        let (ss, out) = handle_datagram win k buf t1 t2 fopen_ok (sessions st)
        in (st\<lparr>sessions := ss\<rparr>, out))"
| "server_step win (WouldBlock now now') st =
     (if now - last_cleanup st > 10000
      then (\<lparr>sessions = cleanup_inactive_sessions now' (sessions st), last_cleanup = now\<rparr>, [])
      else (st, []))"
| "server_step win RecvError st = (st, [])"

text \<open>The receive loop over a sequence of turns, with everything it sent.\<close>

fun server_run :: "u16 \<Rightarrow> event list \<Rightarrow> server_state \<Rightarrow> server_state \<times> u8 list list" where
  "server_run win [] st = (st, [])"
| "server_run win (ev # evs) st =
     (let (st1, out1) = server_step win ev st;
          (st2, out2) = server_run win evs st1
      in (st2, out1 @ out2))"

definition server_init :: "u64 \<Rightarrow> server_state" where
  "server_init t0 = \<lparr>sessions = [], last_cleanup = t0\<rparr>"

text \<open>
  Facts about sessions used below: the counters of a session never pass \<open>2 ^ 32\<close>,
  because a session advances only on a 32-bit sequence number equal to \<open>expected\<close>; and
  the condition under which \<open>expected\<close> stays within \<open>total\<close>, namely that every DATA
  datagram that the receiver commits (one that reaches a session with a checksum that
  verifies and a sequence number equal to \<open>expected\<close>) has a sequence number below the
  total of that session. DATA datagrams that are dropped are not restricted.
\<close>

definition session_ok :: "Session \<Rightarrow> bool" where
  "session_ok s \<longleftrightarrow> expected s \<le> 2 ^ 32 \<and> received s = expected s"

definition within_total :: "Session \<Rightarrow> bool" where
  "within_total s \<longleftrightarrow> expected s \<le> total_s s"

definition commit_below_total :: "event \<Rightarrow> server_state \<Rightarrow> bool" where
  "commit_below_total ev st =
     (case ev of
        Recv k buf t1 t2 fopen_ok \<Rightarrow>
          (case unpack buf of
             Inl e \<Rightarrow> True
           | Inr p \<Rightarrow>
               (case find_session (sessions st) k of
                  None \<Rightarrow> True
                | Some i \<Rightarrow>
                    ptype p = PT_DATA \<and> ru_crc32 (payload p) = checksum p
                    \<and> unat (seq p) = expected (sessions st ! i)
                    \<longrightarrow> unat (seq p) < total_s (sessions st ! i)))
      | WouldBlock now now' \<Rightarrow> True
      | RecvError \<Rightarrow> True)"

fun commits_below_total :: "u16 \<Rightarrow> event list \<Rightarrow> server_state \<Rightarrow> bool" where
  "commits_below_total win [] st = True"
| "commits_below_total win (ev # evs) st =
     (commit_below_total ev st \<and> commits_below_total win evs (fst (server_step win ev st)))"

text \<open>
  A small scenario: the peer \<open>10.0.0.1:40000\<close> opens a session with the metadata
  \<^verbatim>\<open>f|3|3|1|8\<close>; \<open>demo_data n\<close> is the DATA datagram with sequence number \<open>n\<close>, payload
  \<^verbatim>\<open>a\<close> and the right checksum; \<open>demo_corrupt\<close> is the DATA datagram 0 whose payload
  arrived as \<^verbatim>\<open>b\<close>; \<open>demo_handshake_text\<close> carries the metadata \<^verbatim>\<open>f|3|x|1|8\<close>.
\<close>

definition demo_key :: string where "demo_key = ''10.0.0.1:40000''"

definition demo_handshake :: "u8 list" where
  "demo_handshake = [0x52, 0x55, 1, 0,  0, 0, 0, 0,  0, 0, 0, 0,  0, 9,  0, 0,  0, 0, 0, 0,
                     0x66, 0x7C, 0x33, 0x7C, 0x33, 0x7C, 0x31, 0x7C, 0x38]"

definition demo_handshake_text :: "u8 list" where
  "demo_handshake_text = [0x52, 0x55, 1, 0,  0, 0, 0, 0,  0, 0, 0, 0,  0, 9,  0, 0,  0, 0, 0, 0,
                     0x66, 0x7C, 0x33, 0x7C, 0x78, 0x7C, 0x31, 0x7C, 0x38]"

definition demo_data :: "u8 \<Rightarrow> u8 list" where
  "demo_data n = [0x52, 0x55, 1, 2,  0, 0, 0, n,  0, 0, 0, 3,  0, 1,  0, 8,
                  0xE8, 0xB7, 0xBE, 0x43,  0x61]"

definition demo_corrupt :: "u8 list" where
  "demo_corrupt = [0x52, 0x55, 1, 2,  0, 0, 0, 0,  0, 0, 0, 3,  0, 1,  0, 8,
                   0xE8, 0xB7, 0xBE, 0x43,  0x62]"

definition demo_session :: Session where
  "demo_session = \<lparr> key = demo_key, ofs = [], filename = [0x66], expected = 0, total_s = 3,
       received = 0, active = True, session_id = 1001, last_activity = 1000 \<rparr>"

definition demo_state :: server_state where
  "demo_state = fst (server_run 8 [Recv demo_key demo_handshake 1000 1001 True] (server_init 0))"

text \<open>The state after the same peer has sent the DATA datagrams 0, 1 and 2: the three
  packets of the transfer have been received.\<close>

definition demo_complete :: server_state where
  "demo_complete = fst (server_run 8
     [Recv demo_key demo_handshake 1000 1001 True,
      Recv demo_key (demo_data 0) 1010 1010 True, Recv demo_key (demo_data 1) 1020 1020 True,
      Recv demo_key (demo_data 2) 1030 1030 True]
     (server_init 0))"

text \<open>A full table: sessions of the hundred peers \<open>10.0.0.2:40000\<close> to \<open>10.0.0.2:40099\<close>.\<close>

definition peer_key :: "nat \<Rightarrow> string" where
  "peer_key n = ''10.0.0.2:400'' @ [char_of (48 + n div 10), char_of (48 + n mod 10)]"

definition full_state :: server_state where
  "full_state = \<lparr>sessions = map (\<lambda>n. demo_session\<lparr>key := peer_key n\<rparr>) [0..<100],
                  last_cleanup = 0\<rparr>"

subsection \<open>Sender (\<^verbatim>\<open>client/main.c\<close>)\<close>

text \<open>The struct \<^verbatim>\<open>Args\<close> of the sender, without the host and the port; the field
  \<^verbatim>\<open>file\<close> is \<open>file_path\<close>.\<close>

record Args =
  file_path :: "u8 list"
  chunk :: u64
  window :: u16
  timeout_ms :: int
  max_retries :: int

text \<open>
  \<^verbatim>\<open>size_t total = (filesize + args.chunk - 1) / args.chunk\<close>, computed in \<^verbatim>\<open>size_t\<close>.
  A chunk size of zero divides by zero: the process is killed, and there is no result.
\<close>

definition total_packets :: "u64 \<Rightarrow> u64 \<Rightarrow> nat option" where
  "total_packets filesize c =
     (if c = 0 then None else Some (unat ((filesize + c - 1) div c)))"

text \<open>The chunks: \<^verbatim>\<open>off = i * chunk\<close> and
  \<^verbatim>\<open>len = (off + chunk > filesize) ? filesize - off : chunk\<close>.\<close>

definition chunk_len :: "u64 \<Rightarrow> u64 \<Rightarrow> nat \<Rightarrow> u64" where
  "chunk_len filesize c i =
     (if of_nat i * c + c > filesize then filesize - of_nat i * c else c)"

definition make_chunks :: "u8 list \<Rightarrow> u64 \<Rightarrow> nat \<Rightarrow> u8 list option list" where
  "make_chunks data c tot =
     map (\<lambda>i. Some (take (unat (chunk_len (of_nat (length data)) c i))
                      (drop (unat (of_nat i * c :: u64)) data)))
       [0..<tot]"

text \<open>\<^verbatim>\<open>printf\<close> with \<^verbatim>\<open>%ld\<close>, \<^verbatim>\<open>%zu\<close> or \<^verbatim>\<open>%d\<close> of a number that is not negative.\<close>

function dec :: "nat \<Rightarrow> u8 list" where
  "dec n = (if n < 10 then [of_nat (48 + n)] else dec (n div 10) @ [of_nat (48 + n mod 10)])"
  by pat_completeness auto
termination
  by (relation "measure id") auto

text \<open>The file name: what follows the last \<^verbatim>\<open>/\<close>, else what follows the last
  backslash, else the whole path.\<close>

definition after_last :: "u8 \<Rightarrow> u8 list \<Rightarrow> u8 list option" where
  "after_last c s =
     (if c \<in> set s then Some (rev (takeWhile (\<lambda>x. x \<noteq> c) (rev s))) else None)"

definition base_name :: "u8 list \<Rightarrow> u8 list" where
  "base_name path =
     (case after_last 0x2F path of
        Some f \<Rightarrow> f
      | None \<Rightarrow> (case after_last 0x5C path of Some f \<Rightarrow> f | None \<Rightarrow> path))"

text \<open>The metadata \<^verbatim>\<open>"%s|%ld|%zu|%zu|%d"\<close>, cut by \<^verbatim>\<open>snprintf\<close> to 1023 octets.\<close>

definition handshake_meta :: "Args \<Rightarrow> nat \<Rightarrow> nat \<Rightarrow> u8 list" where
  "handshake_meta args filesize tot =
     take 1023 (base_name (file_path args) @ [0x7C] @ dec filesize @ [0x7C] @ dec tot @ [0x7C]
                @ dec (unat (chunk args)) @ [0x7C] @ dec (unat (window args)))"

definition handshake_packet :: "Args \<Rightarrow> nat \<Rightarrow> nat \<Rightarrow> Packet" where
  "handshake_packet args filesize tot =
     (control_packet PT_HANDSHAKE)\<lparr>payload := handshake_meta args filesize tot\<rparr>"

text \<open>
  What the sender puts on the wire. A DATA packet built from a chunk that has been freed
  has a null payload pointer and a non-zero size: \<^verbatim>\<open>pack\<close> then sends the header followed
  by octets it never wrote; such a datagram is recorded by its sequence number only.
\<close>

datatype sent = Datagram "u8 list" | FreedChunk nat

definition data_packet :: "nat \<Rightarrow> u16 \<Rightarrow> nat \<Rightarrow> u8 list \<Rightarrow> Packet" where
  "data_packet tot win n bytes =
     (control_packet PT_DATA)\<lparr>seq := of_nat n, total_p := of_nat tot, window_p := win,
                               payload := bytes\<rparr>"

definition send_data :: "nat \<Rightarrow> u16 \<Rightarrow> u8 list option list \<Rightarrow> nat \<Rightarrow> sent" where
  "send_data tot win cs n =
     (case cs ! n of
        Some bytes \<Rightarrow> Datagram (pack (data_packet tot win n bytes))
      | None \<Rightarrow> FreedChunk n)"

text \<open>The variables of the send loop.\<close>

record gbn_state =
  base :: nat
  nextseq :: nat
  retries :: int
  timer_running :: bool
  timer_t0 :: u64
  chunks :: "u8 list option list"

definition gbn_init :: "u8 list option list \<Rightarrow> gbn_state" where
  "gbn_init cs = \<lparr> base = 0, nextseq = 0, retries = 0, timer_running = False, timer_t0 = 0,
                    chunks = cs \<rparr>"

definition arm_timer :: "u64 \<Rightarrow> gbn_state \<Rightarrow> gbn_state" where
  "arm_timer now st =
     (if base st = nextseq st \<and> \<not> timer_running st
      then st\<lparr>timer_running := True, timer_t0 := now\<rparr> else st)"

text \<open>The inner loop
  \<^verbatim>\<open>while (nextseq < total && nextseq < base + args.window)\<close>.\<close>

function fill_window :: "nat \<Rightarrow> u16 \<Rightarrow> u64 \<Rightarrow> gbn_state \<Rightarrow> gbn_state \<times> sent list" where
  "fill_window tot win now st =
     (if nextseq st < tot \<and> nextseq st < base st + unat win
      then (case fill_window tot win now ((arm_timer now st)\<lparr>nextseq := nextseq st + 1\<rparr>) of
              (st', txs) \<Rightarrow> (st', send_data tot win (chunks st) (nextseq st) # txs))
      else (st, []))"
  by pat_completeness auto
termination
  by (relation "measure (\<lambda>(tot, win, now, st). tot - nextseq st)")
     (auto simp: arm_timer_def)

text \<open>
  The handling of one datagram read without blocking. On an ACK with
  \<^verbatim>\<open>p.seq >= base\<close> the source executes \<^verbatim>\<open>base = p.seq + 1\<close>, an addition in 32 bits,
  and frees \<^verbatim>\<open>chunks[s]\<close> for \<^verbatim>\<open>old_base <= s < base\<close>. When the new base is beyond the
  array of chunks this reads and frees outside the array, which is undefined behaviour in
  C: the process may go on with whatever it read, or be killed. The model gives no state
  for that case: the result is \<open>None\<close>, and nothing is stated about what follows.
\<close>

definition free_chunks :: "nat \<Rightarrow> nat \<Rightarrow> u8 list option list \<Rightarrow> u8 list option list" where
  "free_chunks old_base new_base cs = fold (\<lambda>s cs. cs[s := None]) [old_base..<new_base] cs"

definition on_inbound :: "u64 \<Rightarrow> u8 list option \<Rightarrow> gbn_state \<Rightarrow> gbn_state option" where
  "on_inbound now rx st =
     (case rx of
        None \<Rightarrow> Some st
      | Some buf \<Rightarrow>
          (case unpack buf of
             Inl e \<Rightarrow> Some st
           | Inr p \<Rightarrow>
               if ptype p = PT_ACK \<and> unat (seq p) \<ge> base st
               then
                 let new_base = unat (seq p + 1) in
                 if base st < new_base \<and> length (chunks st) < new_base then None
                 else if new_base = nextseq st
                 then Some (st\<lparr>base := new_base,
                               chunks := free_chunks (base st) new_base (chunks st),
                               timer_running := False\<rparr>)
                 else Some (st\<lparr>base := new_base,
                               chunks := free_chunks (base st) new_base (chunks st),
                               timer_running := True, timer_t0 := now\<rparr>)
               else Some st))"

text \<open>The retransmission of the outstanding packets whose chunk is still there.\<close>

definition retransmit :: "nat \<Rightarrow> u16 \<Rightarrow> gbn_state \<Rightarrow> sent list" where
  "retransmit tot win st =
     concat (map (\<lambda>s. case chunks st ! s of
                         Some bytes \<Rightarrow> [Datagram (pack (data_packet tot win s bytes))]
                       | None \<Rightarrow> [])
                 [base st..<nextseq st])"

text \<open>The check of the timer; \<open>None\<close> is the exit with code 3.\<close>

definition on_timeout ::
  "Args \<Rightarrow> nat \<Rightarrow> u64 \<Rightarrow> u64 \<Rightarrow> gbn_state \<Rightarrow> (gbn_state \<times> sent list) option"
where
  "on_timeout args tot t_check t_rearm st =
     (if timer_running st \<and> t_check - timer_t0 st > of_int (timeout_ms args)
      then
        if retries st + 1 > max_retries args then None
        else Some (st\<lparr>timer_running := True, retries := retries st + 1, timer_t0 := t_rearm\<rparr>,
                   retransmit tot (window args) st)
      else Some (st, []))"

text \<open>The inputs of one turn of the send loop: the datagram read, if any, and the
  readings of the clock.\<close>

record turn =
  t_fill :: u64
  rx :: "u8 list option"
  t_ack :: u64
  t_check :: u64
  t_rearm :: u64

datatype turn_result = Continue gbn_state "sent list" | TransferFailed "sent list"
  | OutOfBounds "sent list"

definition gbn_turn :: "Args \<Rightarrow> nat \<Rightarrow> turn \<Rightarrow> gbn_state \<Rightarrow> turn_result" where
  "gbn_turn args tot t st =
     (case fill_window tot (window args) (t_fill t) st of
        (st1, tx1) \<Rightarrow>
          (case on_inbound (t_ack t) (rx t) st1 of
             None \<Rightarrow> OutOfBounds tx1
           | Some st2 \<Rightarrow>
               (case on_timeout args tot (t_check t) (t_rearm t) st2 of
                  None \<Rightarrow> TransferFailed tx1
                | Some (st3, tx2) \<Rightarrow> Continue st3 (tx1 @ tx2))))"

text \<open>
  The loop \<^verbatim>\<open>while (base < total)\<close> over the turns given. \<open>Completed\<close>: the loop was
  left with \<open>base \<ge> total\<close>. \<open>Exit3\<close>: the retries were exhausted. \<open>OutOfArray\<close>: a
  turn read outside the array of chunks; what was sent up to there is kept, and what the
  process does from there on is left open. \<open>Running\<close>: the turns given were used up inside
  the loop.
\<close>

datatype loop_result = Completed gbn_state "sent list" | Exit3 "sent list"
  | OutOfArray "sent list" | Running gbn_state "sent list"

fun also_sent :: "sent list \<Rightarrow> loop_result \<Rightarrow> loop_result" where
  "also_sent tx (Completed st txs) = Completed st (tx @ txs)"
| "also_sent tx (Exit3 txs) = Exit3 (tx @ txs)"
| "also_sent tx (OutOfArray txs) = OutOfArray (tx @ txs)"
| "also_sent tx (Running st txs) = Running st (tx @ txs)"

fun gbn_loop :: "Args \<Rightarrow> nat \<Rightarrow> turn list \<Rightarrow> gbn_state \<Rightarrow> loop_result" where
  "gbn_loop args tot [] st = (if base st < tot then Running st [] else Completed st [])"
| "gbn_loop args tot (t # ts) st =
     (if base st < tot
      then (case gbn_turn args tot t st of
              Continue st' tx \<Rightarrow> also_sent tx (gbn_loop args tot ts st')
            | TransferFailed tx \<Rightarrow> Exit3 tx
            | OutOfBounds tx \<Rightarrow> OutOfArray tx)
      else Completed st [])"

text \<open>The invariant of the window.\<close>

definition window_inv :: "u16 \<Rightarrow> nat \<Rightarrow> gbn_state \<Rightarrow> bool" where
  "window_inv win tot st \<longleftrightarrow>
     base st \<le> nextseq st \<and> nextseq st \<le> min (base st + unat win) tot"

text \<open>
  The wait for a reply of type \<open>t\<close> during one attempt, given the datagrams that arrive
  before the timeout, and the loop
  \<^verbatim>\<open>while (tries < args.max_retries && !ackd)\<close> with the number of attempts left and the
  datagrams that arrive in each attempt (none, once the list is used up). The result is
  whether the reply came, and the number of datagrams sent.
\<close>

definition awaited :: "u8 \<Rightarrow> u8 list list \<Rightarrow> bool" where
  "awaited t dgs = list_ex (\<lambda>d. case unpack d of Inl e \<Rightarrow> False | Inr p \<Rightarrow> ptype p = t) dgs"

fun exchange :: "u8 \<Rightarrow> nat \<Rightarrow> u8 list list list \<Rightarrow> bool \<times> nat" where
  "exchange t 0 rxs = (False, 0)"
| "exchange t (Suc n) rxs =
     (if awaited t (case rxs of [] \<Rightarrow> [] | r # rs \<Rightarrow> r) then (True, 1)
      else (case exchange t n (tl rxs) of (ok, m) \<Rightarrow> (ok, Suc m)))"

record client_env =
  hs_rx :: "u8 list list list"
  turns :: "turn list"
  fin_rx :: "u8 list list list"

text \<open>\<^verbatim>\<open>main\<close> of the sender after the file has been read. \<open>Returned\<close>: the exit code
  and what was sent. \<open>Killed\<close>: the division by a chunk size of zero. \<open>Undefined\<close>: the
  send loop read outside the array of chunks; what was sent before is kept and nothing is
  said about the rest of the run. \<open>StillSending\<close>: the turns given end inside the send
  loop.\<close>

datatype client_result = Returned int "sent list" | Killed | Undefined "sent list"
  | StillSending "sent list"

definition fin_phase :: "Args \<Rightarrow> client_env \<Rightarrow> sent list \<Rightarrow> client_result" where
  "fin_phase args env tx =
     (case exchange PT_FIN_ACK (nat (max_retries args)) (fin_rx env) of
        (ok, m) \<Rightarrow>
          Returned (if ok then 0 else 4)
            (tx @ replicate m (Datagram (pack (control_packet PT_FIN)))))"

definition client_main :: "Args \<Rightarrow> u8 list \<Rightarrow> client_env \<Rightarrow> client_result" where
  "client_main args data env =
     (case total_packets (of_nat (length data)) (chunk args) of
        None \<Rightarrow> Killed
      | Some tot \<Rightarrow>
          (case exchange PT_HANDSHAKE_ACK (nat (max_retries args)) (hs_rx env) of
             (ackd, n) \<Rightarrow>
               let hs = replicate n (Datagram (pack (handshake_packet args (length data) tot)))
               in if \<not> ackd then Returned 2 hs
                  else
                    (case gbn_loop args tot (turns env)
                            (gbn_init (make_chunks data (chunk args) tot)) of
                       Completed st tx \<Rightarrow> fin_phase args env (hs @ tx)
                     | Exit3 tx \<Rightarrow> Returned 3 (hs @ tx)
                     | OutOfArray tx \<Rightarrow> Undefined (hs @ tx)
                     | Running st tx \<Rightarrow> StillSending (hs @ tx))))"

text \<open>A transfer of ten chunks of one octet with a window of two, and a turn in which an
  ACK for sequence number 5 arrives.\<close>

definition ten_args :: Args where
  "ten_args = \<lparr> file_path = [0x66], chunk = 1, window = 2, timeout_ms = 300, max_retries = 20 \<rparr>"

definition ten_chunks :: "u8 list option list" where
  "ten_chunks = make_chunks (replicate 10 0x61) 1 10"

definition ack5_turn :: turn where
  "ack5_turn = \<lparr> t_fill = 100,
       rx = Some [0x52, 0x55, 1, 3,  0, 0, 0, 5,  0, 0, 0, 0,  0, 0,  0, 0,  0, 0, 0, 0],
       t_ack = 101, t_check = 102, t_rearm = 103 \<rparr>"

definition quiet_turn :: turn where
  "quiet_turn = \<lparr> t_fill = 200, rx = None, t_ack = 201, t_check = 202, t_rearm = 203 \<rparr>"

text \<open>The datagram read in a turn, if it is an ACK, acknowledges a sequence number below
  \<open>n\<close>.\<close>

definition ack_in_range :: "u8 list option \<Rightarrow> nat \<Rightarrow> bool" where
  "ack_in_range r n =
     (case r of
        None \<Rightarrow> True
      | Some buf \<Rightarrow>
          (case unpack buf of
             Inl e \<Rightarrow> True
           | Inr p \<Rightarrow> ptype p \<noteq> PT_ACK \<or> unat (seq p) < n))"

text \<open>Whether something sent is a DATA datagram, and what a run of the sender sent.\<close>

definition is_data :: "sent \<Rightarrow> bool" where
  "is_data x =
     (case x of
        Datagram d \<Rightarrow> (case unpack d of Inl e \<Rightarrow> False | Inr p \<Rightarrow> ptype p = PT_DATA)
      | FreedChunk n \<Rightarrow> True)"

fun sent_of :: "client_result \<Rightarrow> sent list" where
  "sent_of (Returned code tx) = tx"
| "sent_of Killed = []"
| "sent_of (Undefined tx) = tx"
| "sent_of (StillSending tx) = tx"

text \<open>A sender with the default parameters, and replies that acknowledge the handshake
  and the FIN at the first attempt.\<close>

definition empty_args :: Args where
  "empty_args = \<lparr> file_path = [0x65], chunk = 1024, window = 8, timeout_ms = 300, max_retries = 20 \<rparr>"

definition empty_env :: client_env where
  "empty_env = \<lparr> hs_rx = [[[0x52, 0x55, 1, 1,  0, 0, 0, 0,  0, 0, 0, 0,  0, 0,  0, 8,  0, 0, 0, 0]]],
                  turns = [quiet_turn],
                  fin_rx = [[[0x52, 0x55, 1, 5,  0, 0, 0, 0,  0, 0, 0, 0,  0, 0,  0, 0,  0, 0, 0, 0]]] \<rparr>"

section \<open>Properties\<close>

subsection \<open>CRC-32\<close>

lemma and_one_bit0: "((c::u32) AND 1 \<noteq> 0) = bit c 0"
  by (simp add: and_one_eq bit_0 mod_2_eq_odd)

lemma crc_shift_ref: "crc_shift c = ref_bit c"
  by (simp add: crc_shift_def ref_bit_def and_one_bit0 xor.commute)

lemma table_inner_ref: "table_inner n c = ref_bits n c"
  by (induction n arbitrary: c) (simp_all add: crc_shift_ref)

lemma ref_bit_xor: "ref_bit (x XOR y) = ref_bit x XOR ref_bit y"
  by (simp add: ref_bit_def bit_xor_iff ac_simps)

lemma ref_bits_xor: "ref_bits n (x XOR y) = ref_bits n x XOR ref_bits n y"
  by (induction n arbitrary: x y) (simp_all add: ref_bit_xor)

text \<open>Shifting a register whose low \<open>n\<close> bits are zero \<open>n\<close> times never meets a one.\<close>

lemma ref_bits_high: "take_bit n x = 0 \<Longrightarrow> ref_bits n x = drop_bit n x"
proof (induction n arbitrary: x)
  case 0
  then show ?case by simp
next
  case (Suc n)
  have "bit (take_bit (Suc n) x) 0 = bit x 0"
    by (simp add: bit_take_bit_iff)
  with Suc.prems have b0: "\<not> bit x 0" by simp
  have "take_bit n (drop_bit 1 x) = drop_bit 1 (take_bit (Suc n) x)"
    by (simp add: take_bit_drop_bit)
  with Suc.prems have "take_bit n (drop_bit 1 x) = 0" by simp
  then have "ref_bits n (drop_bit 1 x) = drop_bit n (drop_bit 1 x)"
    by (rule Suc.IH)
  then show ?case using b0 by (simp add: ref_bit_def)
qed

lemma split_low: "(x::u32) = (x AND 0xFF) XOR (x AND NOT 0xFF)"
  by (rule bit_eqI) (auto simp: bit_simps)

lemma take_bit_high: "take_bit 8 ((x::u32) AND NOT 0xFF) = 0"
  by (rule bit_eqI) (auto simp: bit_simps)

lemma mask8: "(0xFF::u32) = mask 8"
  by (simp add: mask_eq_exp_minus_1)

lemma drop_bit_high: "drop_bit 8 ((x::u32) AND NOT 0xFF) = drop_bit 8 x"
  unfolding mask8 by (rule bit_eqI) (auto simp: bit_simps dest: bit_imp_le_length)

lemma low_lt: "unat ((x::u32) AND 0xFF) < 256"
  using word_and_le1 [of x "0xFF"] by (simp add: word_le_nat_alt)

lemma table_lookup: "unat (i::u32) < 256 \<Longrightarrow> init_table ! unat i = ref_bits 8 i"
  by (simp add: init_table_def table_inner_ref del: ref_bits.simps)

lemma ref_byte_table: "ref_bits 8 x = init_table ! unat (x AND 0xFF) XOR drop_bit 8 x"
proof -
  have "ref_bits 8 x = ref_bits 8 ((x AND 0xFF) XOR (x AND NOT 0xFF))"
    using split_low [of x] by simp
  also have "\<dots> = ref_bits 8 (x AND 0xFF) XOR ref_bits 8 (x AND NOT 0xFF)"
    by (rule ref_bits_xor)
  also have "ref_bits 8 (x AND NOT 0xFF) = drop_bit 8 x"
    using ref_bits_high [OF take_bit_high, of x] by (simp only: drop_bit_high)
  also have "ref_bits 8 (x AND 0xFF) = init_table ! unat (x AND 0xFF)"
    by (rule table_lookup [symmetric, OF low_lt])
  finally show ?thesis .
qed

lemma drop8_xor_ucast: "drop_bit 8 ((c::u32) XOR ucast (b::u8)) = drop_bit 8 c"
  by (rule bit_eqI) (auto simp: bit_simps dest: bit_imp_le_length)

lemma crc_update_ref: "crc_update c b = ref_byte c b"
  by (simp only: crc_update_def ref_byte_def ref_byte_table [of "c XOR ucast b"] drop8_xor_ucast)

lemma foldl_crc: "foldl crc_update c data = foldl ref_byte c data"
  by (induction data arbitrary: c) (simp_all add: crc_update_ref)

lemma ru_crc32_eq_reference: "ru_crc32 data = crc32_reference data"
  by (simp add: ru_crc32_def crc32_reference_def foldl_crc)

lemma ref_bits_8:
  "ref_bits 8 r =
     ref_bit (ref_bit (ref_bit (ref_bit (ref_bit (ref_bit (ref_bit (ref_bit r)))))))"
  by (simp add: eval_nat_numeral)

text \<open>The check value of CRC-32: the checksum of the ASCII digits \<open>123456789\<close>.\<close>

lemma ru_crc32_check_value:
  "ru_crc32 [0x31, 0x32, 0x33, 0x34, 0x35, 0x36, 0x37, 0x38, 0x39] = 0xCBF43926"
  by (simp add: ru_crc32_eq_reference crc32_reference_def ref_byte_def ref_bits_8 ref_bit_def)

lemma ru_crc32_Nil: "ru_crc32 [] = 0"
  by (simp add: ru_crc32_def)

lemma ru_crc32_a: "ru_crc32 [0x61] = 0xE8B7BE43"
  by (simp add: ru_crc32_eq_reference crc32_reference_def ref_byte_def ref_bits_8 ref_bit_def)

text \<open>
  Claim C8. For every octet sequence, the table-driven \<^verbatim>\<open>ru_crc32\<close> returns the reflected
  CRC-32 of IEEE 802.3 (polynomial \<open>0xEDB88320\<close>, initial value and final xor
  \<open>0xFFFFFFFF\<close>) as the bitwise reference definition computes it.
\<close>

theorem C8_ru_crc32_is_crc32: "ru_crc32 data = crc32_reference data"
  by (simp add: ru_crc32_def crc32_reference_def foldl_crc)

subsection \<open>Wire codec\<close>

lemma be32_cat: "be32 (push_bit 24 (ucast (a::u8)) OR push_bit 16 (ucast (b::u8)) OR push_bit 8 (ucast (c::u8)) OR ucast (d::u8)) = [a, b, c, d]"
  unfolding be32_def
  by (simp, intro conjI; rule bit_eqI; auto simp: bit_simps dest: bit_imp_le_length)

lemma be16_cat: "be16 (push_bit 8 (ucast (a::u8)) OR ucast (b::u8)) = [a, b]"
  unfolding be16_def
  by (simp, intro conjI; rule bit_eqI; auto simp: bit_simps dest: bit_imp_le_length)

lemma cat_be32: "push_bit 24 (ucast (ucast (drop_bit 24 w) :: u8)) OR push_bit 16 (ucast (ucast (drop_bit 16 w) :: u8)) OR push_bit 8 (ucast (ucast (drop_bit 8 w) :: u8)) OR ucast (ucast w :: u8) = (w::u32)"
proof (rule bit_eqI)
  fix n
  show "bit (push_bit 24 (ucast (ucast (drop_bit 24 w) :: u8)) OR push_bit 16 (ucast (ucast (drop_bit 16 w) :: u8)) OR push_bit 8 (ucast (ucast (drop_bit 8 w) :: u8)) OR ucast (ucast w :: u8) :: u32) n = bit w n"
    by (cases "n < 8"; cases "n < 16"; cases "n < 24")
       (auto simp: bit_simps dest: bit_imp_le_length)
qed

lemma cat_be16: "push_bit 8 (ucast (ucast (drop_bit 8 w) :: u8)) OR ucast (ucast w :: u8) = (w::u16)"
proof (rule bit_eqI)
  fix n
  show "bit (push_bit 8 (ucast (ucast (drop_bit 8 w) :: u8)) OR ucast (ucast w :: u8) :: u16) n = bit w n"
    by (cases "n < 8") (auto simp: bit_simps dest: bit_imp_le_length)
qed

lemma take20: "20 \<le> length x \<Longrightarrow> take 20 x = [x!0, x!1, x!2, x!3, x!4, x!5, x!6, x!7, x!8, x!9, x!10, x!11, x!12, x!13, x!14, x!15, x!16, x!17, x!18, x!19]"
  by (simp add: list_eq_iff_nth_eq nth_Cons' less_Suc_eq eval_nat_numeral)

lemma be32_rd32: "be32 (rd32 buf off) = [buf ! off, buf ! (off + 1), buf ! (off + 2), buf ! (off + 3)]"
  by (simp only: rd32_def be32_cat)

lemma be16_rd16: "be16 (rd16 buf off) = [buf ! off, buf ! (off + 1)]"
  by (simp only: rd16_def be16_cat)

lemma rd32_be32: "rd32 (be32 w @ rest) 0 = w"
  using cat_be32 [of w] by (simp add: rd32_def be32_def)

lemma be32_inj: "be32 v = be32 w \<Longrightarrow> v = w"
  by (metis rd32_be32)

lemma unpack_ok:
  assumes "HEADER_SIZE \<le> length buf" "buf ! 0 = 0x52" "buf ! 1 = 0x55" "buf ! 2 = VERSION"
    "unat (rd16 buf 12) \<le> length buf - HEADER_SIZE"
  shows "unpack buf = Inr \<lparr> magic0 = buf ! 0, magic1 = buf ! 1, version = buf ! 2, ptype = buf ! 3,
                 seq = rd32 buf 4, total_p = rd32 buf 8, length_p = rd16 buf 12,
                 window_p = rd16 buf 14, checksum = rd32 buf 16,
                 payload = take (unat (rd16 buf 12)) (drop HEADER_SIZE buf) \<rparr>"
  using assms by (simp add: unpack_def)

lemma split20: "HEADER_SIZE \<le> length x \<Longrightarrow> x = [x!0, x!1, x!2, x!3, x!4, x!5, x!6, x!7, x!8, x!9, x!10, x!11, x!12, x!13, x!14, x!15] @ [x!16, x!17, x!18, x!19] @ drop HEADER_SIZE x"
  using take20 [of x] append_take_drop_id [of 20 x] by (simp add: HEADER_SIZE_def)

lemma pack_unpacked:
  assumes wf: "well_formed x"
  shows "\<exists>P. unpack x = Inr P
    \<and> pack P = [x!0, x!1, x!2, x!3, x!4, x!5, x!6, x!7, x!8, x!9, x!10, x!11, x!12, x!13, x!14, x!15] @ be32 (pack_checksum P) @ drop HEADER_SIZE x
    \<and> pack_checksum P = (if unset_checksum x then ru_crc32 (drop HEADER_SIZE x) else rd32 x 16)"
proof -
  define P where "P = \<lparr> magic0 = x ! 0, magic1 = x ! 1, version = x ! 2, ptype = x ! 3,
                 seq = rd32 x 4, total_p = rd32 x 8, length_p = rd16 x 12,
                 window_p = rd16 x 14, checksum = rd32 x 16,
                 payload = take (unat (rd16 x 12)) (drop HEADER_SIZE x) \<rparr>"
  from wf have len: "HEADER_SIZE \<le> length x" and l: "unat (rd16 x 12) = length x - HEADER_SIZE"
    and m: "x ! 0 = 0x52" "x ! 1 = 0x55" "x ! 2 = VERSION"
    by (simp_all add: well_formed_def)
  have u: "unpack x = Inr P" unfolding P_def using len m l by (intro unpack_ok) simp_all
  have pl: "payload P = drop HEADER_SIZE x" by (simp add: P_def l)
  have "length (payload P) = unat (rd16 x 12)"
    using l by (simp add: pl)
  then have "of_nat (length (payload P)) = rd16 x 12"
    by simp
  then have p: "pack P = [x!0, x!1, x!2, x!3, x!4, x!5, x!6, x!7, x!8, x!9, x!10, x!11, x!12, x!13, x!14, x!15] @ be32 (pack_checksum P) @ drop HEADER_SIZE x"
    by (simp add: pack_def pl be32_rd32 be16_rd16) (simp add: P_def be32_rd32 be16_rd16)
  have f: "ptype P = x ! 3" "checksum P = rd32 x 16" by (simp_all add: P_def)
  have c: "pack_checksum P = (if unset_checksum x then ru_crc32 (drop HEADER_SIZE x) else rd32 x 16)"
    using len by (auto simp: pack_checksum_def unset_checksum_def pl f)
  from u p c show ?thesis by blast
qed

lemma unpack_short: "unpack buf = Inl ShortHeader \<longleftrightarrow> length buf < HEADER_SIZE"
  by (auto simp: unpack_def)

lemma unpack_magic: "unpack buf = Inl BadMagic \<longleftrightarrow> HEADER_SIZE \<le> length buf \<and> \<not> magic_ok buf"
  by (auto simp: unpack_def magic_ok_def)

lemma unpack_trunc: "unpack buf = Inl TruncatedPayload \<longleftrightarrow>
    HEADER_SIZE \<le> length buf \<and> magic_ok buf \<and> length buf - HEADER_SIZE < unat (rd16 buf 12)"
  by (auto simp: unpack_def magic_ok_def)

lemma unpack_Inr: "unpack buf = Inr p \<longleftrightarrow>
    HEADER_SIZE \<le> length buf \<and> magic_ok buf \<and> unat (rd16 buf 12) \<le> length buf - HEADER_SIZE
    \<and> p = \<lparr> magic0 = buf ! 0, magic1 = buf ! 1, version = buf ! 2, ptype = buf ! 3,
                 seq = rd32 buf 4, total_p = rd32 buf 8, length_p = rd16 buf 12,
                 window_p = rd16 buf 14, checksum = rd32 buf 16,
                 payload = take (unat (rd16 buf 12)) (drop HEADER_SIZE buf) \<rparr>"
  by (auto simp: unpack_def magic_ok_def)

lemma unpack_trailing: "unpack buf = Inr p \<Longrightarrow> unpack (buf @ extra) = Inr p"
  by (auto simp: unpack_Inr magic_ok_def nth_append rd16_def rd32_def HEADER_SIZE_def)

lemma rd32_4: "rd32 [a, b, c, d] 0 = push_bit 24 (ucast a) OR push_bit 16 (ucast b) OR push_bit 8 (ucast c) OR ucast d"
  by (simp add: rd32_def)

lemma unpack_checksum_free:
  assumes "unpack buf = Inr p"
  shows "unpack (buf[16 := a, 17 := b, 18 := c, 19 := d]) = Inr (p\<lparr>checksum := rd32 [a, b, c, d] 0\<rparr>)"
  using assms
  by (auto simp: unpack_Inr magic_ok_def rd16_def HEADER_SIZE_def rd32_4)
     (simp_all add: rd32_def)

lemma unpack_checksum_free_err:
  assumes "unpack buf = Inl e"
  shows "unpack (buf[16 := a, 17 := b, 18 := c, 19 := d]) = Inl e"
  using assms
  by (auto simp: unpack_def rd16_def HEADER_SIZE_def split: if_splits)


text \<open>The DATA datagram with the one-octet payload \<open>0x61\<close>, once with a zero checksum
  field and once with the CRC-32 of the payload in it.\<close>

lemma data_unset_well_formed:
  "well_formed [0x52, 0x55, 1, 2,  0, 0, 0, 0,  0, 0, 0, 1,  0, 1,  0, 0,  0, 0, 0, 0,  0x61]"
  by (simp add: well_formed_def HEADER_SIZE_def VERSION_def rd16_def)

lemma take16: "16 \<le> length x \<Longrightarrow> take 16 x = [x!0, x!1, x!2, x!3, x!4, x!5, x!6, x!7, x!8, x!9, x!10, x!11, x!12, x!13, x!14, x!15]"
  by (simp add: list_eq_iff_nth_eq less_Suc_eq eval_nat_numeral)

lemma data_set_well_formed:
  "well_formed [0x52, 0x55, 1, 2,  0, 0, 0, 0,  0, 0, 0, 1,  0, 1,  0, 0,  0xE8, 0xB7, 0xBE, 0x43,  0x61]"
  by (simp add: well_formed_def HEADER_SIZE_def VERSION_def rd16_def)

lemma data_unset_checksum:
  "unset_checksum [0x52, 0x55, 1, 2,  0, 0, 0, 0,  0, 0, 0, 1,  0, 1,  0, 0,  0, 0, 0, 0,  0x61]"
  by (simp add: unset_checksum_def PT_DATA_def HEADER_SIZE_def rd32_def ru_crc32_a)

lemma data_set_checksum:
  "\<not> unset_checksum [0x52, 0x55, 1, 2,  0, 0, 0, 0,  0, 0, 0, 1,  0, 1,  0, 0,  0xE8, 0xB7, 0xBE, 0x43,  0x61]"
  by (simp add: unset_checksum_def PT_DATA_def HEADER_SIZE_def rd32_def)

lemma unpack_data_unset:
  "unpack [0x52, 0x55, 1, 2,  0, 0, 0, 0,  0, 0, 0, 1,  0, 1,  0, 0,  0, 0, 0, 0,  0x61]
       = Inr \<lparr> magic0 = 0x52, magic1 = 0x55, version = 1, ptype = 2, seq = 0, total_p = 1,
               length_p = 1, window_p = 0, checksum = 0, payload = [0x61] \<rparr>"
  by (simp add: unpack_def HEADER_SIZE_def VERSION_def rd16_def rd32_def)

lemma unpack_data_set:
  "unpack [0x52, 0x55, 1, 2,  0, 0, 0, 0,  0, 0, 0, 1,  0, 1,  0, 0,  0xE8, 0xB7, 0xBE, 0x43,  0x61]
       = Inr \<lparr> magic0 = 0x52, magic1 = 0x55, version = 1, ptype = 2, seq = 0, total_p = 1,
               length_p = 1, window_p = 0, checksum = 0xE8B7BE43, payload = [0x61] \<rparr>"
  by (simp add: unpack_def HEADER_SIZE_def VERSION_def rd16_def rd32_def)

text \<open>An ACK datagram for sequence number 5.\<close>

lemma unpack_ack5:
  "unpack [0x52, 0x55, 1, 3,  0, 0, 0, 5,  0, 0, 0, 0,  0, 0,  0, 0,  0, 0, 0, 0] =
     Inr \<lparr> magic0 = 0x52, magic1 = 0x55, version = 1, ptype = 3, seq = 5, total_p = 0,
           length_p = 0, window_p = 0, checksum = 0, payload = [] \<rparr>"
  by (simp add: unpack_def HEADER_SIZE_def VERSION_def rd16_def rd32_def)

text \<open>
  Claim C4, as stated, fails: the DATA datagram below is well formed (21 octets, magic and
  version right, length field 1 with one payload octet), yet \<^verbatim>\<open>pack\<close> of its decoding has
  the checksum octets \<open>E8 B7 BE 43\<close> where the datagram has zeros.
\<close>

theorem C4_roundtrip_counterexample:
  "well_formed [0x52, 0x55, 1, 2,  0, 0, 0, 0,  0, 0, 0, 1,  0, 1,  0, 0,  0, 0, 0, 0,  0x61]
   \<and> unpack [0x52, 0x55, 1, 2,  0, 0, 0, 0,  0, 0, 0, 1,  0, 1,  0, 0,  0, 0, 0, 0,  0x61]
       = Inr \<lparr> magic0 = 0x52, magic1 = 0x55, version = 1, ptype = 2, seq = 0, total_p = 1,
               length_p = 1, window_p = 0, checksum = 0, payload = [0x61] \<rparr>
   \<and> pack \<lparr> magic0 = 0x52, magic1 = 0x55, version = 1, ptype = 2, seq = 0, total_p = 1,
            length_p = 1, window_p = 0, checksum = 0, payload = [0x61] \<rparr>
       = [0x52, 0x55, 1, 2,  0, 0, 0, 0,  0, 0, 0, 1,  0, 1,  0, 0,  0xE8, 0xB7, 0xBE, 0x43,  0x61]
   \<and> [0x52, 0x55, 1, 2,  0, 0, 0, 0,  0, 0, 0, 1,  0, 1,  0, 0,  0xE8, 0xB7, 0xBE, 0x43,  0x61]
       \<noteq> [0x52, 0x55, 1, 2,  0, 0, 0, 0,  0, 0, 0, 1,  0, 1,  0, 0,  0, 0, 0, 0,  0x61 :: u8]"
  by (simp add: well_formed_def unpack_def pack_def pack_checksum_def HEADER_SIZE_def
      VERSION_def rd16_def rd32_def be16_def be32_def PT_DATA_def ru_crc32_a)

text \<open>
  Claim C4, amended. Every well-formed datagram \<open>x\<close> (at least 20 octets, magic and version
  right, length field equal to the number of octets after the header) is decoded, and
  encoding the decoded packet gives \<open>x\<close> back exactly when \<open>x\<close> is not a DATA datagram with
  a non-empty payload whose checksum field is zero although the CRC-32 of the payload is
  not zero; for such a datagram \<^verbatim>\<open>pack\<close> writes the CRC-32 into the checksum field.
\<close>

theorem C4_roundtrip:
  assumes wf: "well_formed x"
  shows "\<exists>p. unpack x = Inr p \<and> (pack p = x \<longleftrightarrow> \<not> unset_checksum x)
     \<and> (unset_checksum x \<longrightarrow>
          pack p = take 16 x @ be32 (ru_crc32 (drop HEADER_SIZE x)) @ drop HEADER_SIZE x)"
proof -
  let ?h = "[x!0, x!1, x!2, x!3, x!4, x!5, x!6, x!7, x!8, x!9, x!10, x!11, x!12, x!13, x!14, x!15]"
  from pack_unpacked [OF wf] obtain P where u: "unpack x = Inr P"
    and p: "pack P = ?h @ be32 (pack_checksum P) @ drop HEADER_SIZE x"
    and c: "pack_checksum P = (if unset_checksum x then ru_crc32 (drop HEADER_SIZE x) else rd32 x 16)"
    by blast
  from wf have len: "HEADER_SIZE \<le> length x" by (simp add: well_formed_def)
  then have h: "take 16 x = ?h" by (intro take16) (simp add: HEADER_SIZE_def)
  have x: "x = ?h @ be32 (rd32 x 16) @ drop HEADER_SIZE x"
    using split20 [OF len] by (simp only: be32_rd32) simp
  have "pack P = x \<longleftrightarrow> ?h @ be32 (pack_checksum P) @ drop HEADER_SIZE x = ?h @ be32 (rd32 x 16) @ drop HEADER_SIZE x"
    using x p by simp
  also have "\<dots> \<longleftrightarrow> pack_checksum P = rd32 x 16"
    by (auto dest: be32_inj)
  also have "\<dots> \<longleftrightarrow> \<not> unset_checksum x"
    unfolding c by (auto simp: unset_checksum_def)
  finally have rt: "pack P = x \<longleftrightarrow> \<not> unset_checksum x" .
  have "unset_checksum x \<Longrightarrow>
          pack P = take 16 x @ be32 (ru_crc32 (drop HEADER_SIZE x)) @ drop HEADER_SIZE x"
    using p c by (simp only: h if_True)
  with u rt show ?thesis by blast
qed

theorem C4_roundtrip_witness:
  "well_formed [0x52, 0x55, 1, 2,  0, 0, 0, 0,  0, 0, 0, 1,  0, 1,  0, 0,  0xE8, 0xB7, 0xBE, 0x43,  0x61]
   \<and> pack \<lparr> magic0 = 0x52, magic1 = 0x55, version = 1, ptype = 2, seq = 0, total_p = 1,
            length_p = 1, window_p = 0, checksum = 0xE8B7BE43, payload = [0x61] \<rparr>
       = [0x52, 0x55, 1, 2,  0, 0, 0, 0,  0, 0, 0, 1,  0, 1,  0, 0,  0xE8, 0xB7, 0xBE, 0x43,  0x61]
   \<and> well_formed [0x52, 0x55, 1, 2,  0, 0, 0, 0,  0, 0, 0, 1,  0, 1,  0, 0,  0, 0, 0, 0,  0x61]
   \<and> unset_checksum [0x52, 0x55, 1, 2,  0, 0, 0, 0,  0, 0, 0, 1,  0, 1,  0, 0,  0, 0, 0, 0,  0x61]
   \<and> pack \<lparr> magic0 = 0x52, magic1 = 0x55, version = 1, ptype = 2, seq = 0, total_p = 1,
            length_p = 1, window_p = 0, checksum = 0, payload = [0x61] \<rparr>
       = [0x52, 0x55, 1, 2,  0, 0, 0, 0,  0, 0, 0, 1,  0, 1,  0, 0,  0xE8, 0xB7, 0xBE, 0x43,  0x61]"
  using C4_roundtrip [OF data_set_well_formed] C4_roundtrip [OF data_unset_well_formed]
    data_set_well_formed data_unset_well_formed data_set_checksum data_unset_checksum
  by (simp add: unpack_data_set unpack_data_unset ru_crc32_a HEADER_SIZE_def be32_def)

text \<open>
  Claim C5. For every octet sequence \<open>buf\<close>: \<^verbatim>\<open>unpack\<close> fails with the short-header error
  exactly when \<open>buf\<close> has fewer than 20 octets; with the bad-magic error exactly when it has
  at least 20 octets and the magic octets or the version are wrong; with the
  truncated-payload error exactly when, the header being present and valid, the length
  field exceeds the number of octets after the header; and it succeeds in every other case.
  On success the payload is the first \<open>length\<close> octets after the header, and octets
  appended to the datagram change nothing. The checksum octets (offsets 16 to 19) are
  only copied: replacing them by any four octets keeps every error, and keeps a success
  with nothing but the checksum field of the packet changed.
\<close>

theorem C5_unpack_outcomes:
  "(unpack buf = Inl ShortHeader \<longleftrightarrow> length buf < HEADER_SIZE)
   \<and> (unpack buf = Inl BadMagic \<longleftrightarrow> HEADER_SIZE \<le> length buf \<and> \<not> magic_ok buf)
   \<and> (unpack buf = Inl TruncatedPayload \<longleftrightarrow>
        HEADER_SIZE \<le> length buf \<and> magic_ok buf \<and> length buf - HEADER_SIZE < unat (rd16 buf 12))
   \<and> ((\<exists>p. unpack buf = Inr p) \<longleftrightarrow>
        HEADER_SIZE \<le> length buf \<and> magic_ok buf \<and> unat (rd16 buf 12) \<le> length buf - HEADER_SIZE)
   \<and> (\<forall>p. unpack buf = Inr p \<longrightarrow>
        payload p = take (unat (rd16 buf 12)) (drop HEADER_SIZE buf)
        \<and> (\<forall>extra. unpack (buf @ extra) = Inr p)
        \<and> (\<forall>a b c d. unpack (buf[16 := a, 17 := b, 18 := c, 19 := d])
              = Inr (p\<lparr>checksum := rd32 [a, b, c, d] 0\<rparr>)))
   \<and> (\<forall>e a b c d. unpack buf = Inl e \<longrightarrow> unpack (buf[16 := a, 17 := b, 18 := c, 19 := d]) = Inl e)"
proof (intro conjI allI impI)
  show "unpack buf = Inl ShortHeader \<longleftrightarrow> length buf < HEADER_SIZE"
    by (rule unpack_short)
  show "unpack buf = Inl BadMagic \<longleftrightarrow> HEADER_SIZE \<le> length buf \<and> \<not> magic_ok buf"
    by (rule unpack_magic)
  show "unpack buf = Inl TruncatedPayload \<longleftrightarrow>
        HEADER_SIZE \<le> length buf \<and> magic_ok buf \<and> length buf - HEADER_SIZE < unat (rd16 buf 12)"
    by (rule unpack_trunc)
  show "(\<exists>p. unpack buf = Inr p) \<longleftrightarrow>
        HEADER_SIZE \<le> length buf \<and> magic_ok buf \<and> unat (rd16 buf 12) \<le> length buf - HEADER_SIZE"
    by (simp add: unpack_Inr)
next
  fix p assume "unpack buf = Inr p"
  then show "payload p = take (unat (rd16 buf 12)) (drop HEADER_SIZE buf)"
    by (simp add: unpack_Inr)
next
  fix p extra assume "unpack buf = Inr p"
  then show "unpack (buf @ extra) = Inr p" by (rule unpack_trailing)
next
  fix p a b c d assume "unpack buf = Inr p"
  then show "unpack (buf[16 := a, 17 := b, 18 := c, 19 := d]) = Inr (p\<lparr>checksum := rd32 [a, b, c, d] 0\<rparr>)"
    by (rule unpack_checksum_free)
next
  fix e a b c d assume "unpack buf = Inl e"
  then show "unpack (buf[16 := a, 17 := b, 18 := c, 19 := d]) = Inl e"
    by (rule unpack_checksum_free_err)
qed

theorem C5_unpack_outcomes_witness:
  "unpack [0x52, 0x55, 1, 3,  0, 0, 0, 5,  0, 0, 0, 0,  0, 0,  0, 0,  0, 0, 0, 0] =
     Inr \<lparr> magic0 = 0x52, magic1 = 0x55, version = 1, ptype = 3, seq = 5, total_p = 0,
           length_p = 0, window_p = 0, checksum = 0, payload = [] \<rparr>
   \<and> unpack ([0x52, 0x55, 1, 3,  0, 0, 0, 5,  0, 0, 0, 0,  0, 0,  0, 0,  0, 0, 0, 0] @ [0xAA, 0xBB]) =
     Inr \<lparr> magic0 = 0x52, magic1 = 0x55, version = 1, ptype = 3, seq = 5, total_p = 0,
           length_p = 0, window_p = 0, checksum = 0, payload = [] \<rparr>
   \<and> unpack ([0x52, 0x55, 1, 3,  0, 0, 0, 5,  0, 0, 0, 0,  0, 0,  0, 0,  0, 0, 0, 0]
              [16 := 0xDE, 17 := 0xAD, 18 := 0xBE, 19 := 0xEF]) =
     Inr \<lparr> magic0 = 0x52, magic1 = 0x55, version = 1, ptype = 3, seq = 5, total_p = 0,
           length_p = 0, window_p = 0, checksum = 0xDEADBEEF, payload = [] \<rparr>
   \<and> unpack [0x52, 0x55, 1] = Inl ShortHeader
   \<and> unpack ([0x52, 0x55, 1][16 := 0xDE, 17 := 0xAD, 18 := 0xBE, 19 := 0xEF]) = Inl ShortHeader"
proof -
  let ?b = "[0x52, 0x55, 1, 3,  0, 0, 0, 5,  0, 0, 0, 0,  0, 0,  0, 0,  0, 0, 0, 0] :: u8 list"
  let ?p = "\<lparr> magic0 = 0x52, magic1 = 0x55, version = 1, ptype = 3, seq = 5, total_p = 0,
           length_p = 0, window_p = 0, checksum = 0, payload = [] \<rparr>"
  have s: "unpack [0x52, 0x55, 1] = Inl ShortHeader"
    by (simp add: unpack_def HEADER_SIZE_def)
  have t: "unpack (?b @ [0xAA, 0xBB]) = Inr ?p"
    using C5_unpack_outcomes [of ?b] unpack_ack5 by blast
  have c: "unpack (?b[16 := 0xDE, 17 := 0xAD, 18 := 0xBE, 19 := 0xEF])
      = Inr (?p\<lparr>checksum := rd32 [0xDE, 0xAD, 0xBE, 0xEF] 0\<rparr>)"
    using C5_unpack_outcomes [of ?b] unpack_ack5 by blast
  have e: "unpack ([0x52, 0x55, 1][16 := 0xDE, 17 := 0xAD, 18 := 0xBE, 19 := 0xEF]) = Inl ShortHeader"
    using C5_unpack_outcomes [of "[0x52, 0x55, 1]"] s by blast
  have v: "rd32 [0xDE, 0xAD, 0xBE, 0xEF] 0 = 0xDEADBEEF"
    by (simp add: rd32_def)
  from unpack_ack5 t c e s v show ?thesis by simp
qed

subsection \<open>Receiver: sessions\<close>

text \<open>A datagram without octets is not decoded by the loop; decoding it would have failed
  with nothing done, so a \<open>Recv\<close> turn is in every case what the handler makes of it.\<close>

lemma server_step_Recv:
  "server_step win (Recv k buf t1 t2 fo) st =
     (let (ss, out) = handle_datagram win k buf t1 t2 fo (sessions st)
      in (st\<lparr>sessions := ss\<rparr>, out))"
  by (cases buf) (simp_all add: handle_datagram_def unpack_def HEADER_SIZE_def)

declare server_step.simps(1) [simp del]

lemma find_session_Some: "find_session ss k = Some i \<Longrightarrow> i < length ss \<and> key (ss ! i) = k"
  by (induction ss arbitrary: i) (auto split: if_splits)

lemma find_session_None: "find_session ss k = None \<longleftrightarrow> k \<notin> key ` set ss"
  by (induction ss) auto

lemma set_remove_session: "set (remove_session ss i) \<subseteq> set ss"
  by (auto simp: remove_session_def dest: in_set_takeD in_set_dropD)

lemma set_cleanup_old: "set (cleanup_old_session ss k) \<subseteq> set ss"
  by (induction ss) auto

lemma cleanup_old_absent: "find_session ss k = None \<Longrightarrow> cleanup_old_session ss k = ss"
  by (induction ss) (auto split: if_splits)

lemma set_cleanup_inactive_loop: "set (cleanup_inactive_loop n now ss) \<subseteq> set ss"
proof (induction n arbitrary: ss)
  case 0
  then show ?case by simp
next
  case (Suc n)
  show ?case using Suc.IH set_remove_session by (simp, blast)
qed

lemma set_cleanup_inactive: "set (cleanup_inactive_sessions now ss) \<subseteq> set ss"
  by (simp add: cleanup_inactive_sessions_def set_cleanup_inactive_loop)

lemma new_session_ok: "session_ok (new_session k parts t1 t2)"
  by (simp add: session_ok_def new_session_def)

lemma unat_lt_2p32: "unat (w::u32) < 2 ^ 32"
  using unsigned_less [of w, where 'a = nat] by simp

lemma handle_handshake_ok:
  assumes "\<forall>s\<in>set ss. session_ok s"
  shows "\<forall>s\<in>set (fst (handle_handshake win k p t1 t2 fo ss)). session_ok s"
  using assms set_cleanup_old [of ss k]
  by (auto simp: handle_handshake_def Let_def new_session_ok)

lemma handle_data_ok:
  assumes "\<forall>s\<in>set ss. session_ok s"
  shows "\<forall>s\<in>set (fst (handle_data k p t1 ss)). session_ok s"
proof (cases "find_session ss k")
  case None
  then show ?thesis using assms by (simp add: handle_data_def)
next
  case (Some i)
  then have i: "i < length ss" by (simp add: find_session_Some)
  then have ok: "session_ok (ss ! i)" using assms by simp
  have "session_ok ((ss ! i)\<lparr>last_activity := t1\<rparr>)"
    using ok by (simp add: session_ok_def)
  moreover have "unat (seq p) = expected (ss ! i) \<Longrightarrow>
     session_ok ((ss ! i)\<lparr>last_activity := t1, ofs := ofs (ss ! i) @ payload p, expected := expected (ss ! i) + 1,
                             received := received (ss ! i) + 1\<rparr>)"
    using ok unat_lt_2p32 [of "seq p"] by (simp add: session_ok_def)
  ultimately show ?thesis using assms Some
    by (auto simp: handle_data_def Let_def dest!: set_update_subset_insert [THEN subsetD])
qed

lemma handle_fin_ok:
  assumes "\<forall>s\<in>set ss. session_ok s"
  shows "\<forall>s\<in>set (fst (handle_fin k ss)). session_ok s"
  using assms set_remove_session by (auto simp: handle_fin_def split: option.splits)

lemma handle_datagram_ok:
  assumes "\<forall>s\<in>set ss. session_ok s"
  shows "\<forall>s\<in>set (fst (handle_datagram win k buf t1 t2 fo ss)). session_ok s"
proof (cases "unpack buf")
  case (Inl e)
  then show ?thesis using assms by (simp add: handle_datagram_def)
next
  case (Inr p)
  show ?thesis
    using handle_handshake_ok [OF assms, of win k p t1 t2 fo] handle_data_ok [OF assms, of k p t1]
      handle_fin_ok [OF assms, of k] assms
    by (simp add: handle_datagram_def Inr)
qed

lemma server_step_ok:
  assumes "\<forall>s\<in>set (sessions st). session_ok s"
  shows "\<forall>s\<in>set (sessions (fst (server_step win ev st))). session_ok s"
proof (cases ev)
  case (Recv k buf t1 t2 fo)
  then show ?thesis using handle_datagram_ok [OF assms, of win k buf t1 t2 fo]
    by (simp add: server_step_Recv split_beta)
next
  case (WouldBlock now now')
  then show ?thesis using assms set_cleanup_inactive by auto
next
  case RecvError
  then show ?thesis using assms by simp
qed

lemma server_run_ok:
  assumes "\<forall>s\<in>set (sessions st). session_ok s"
  shows "\<forall>s\<in>set (sessions (fst (server_run win evs st))). session_ok s"
  using assms
proof (induction evs arbitrary: st)
  case Nil
  then show ?case by simp
next
  case (Cons ev evs)
  from server_step_ok [OF Cons.prems, of win ev]
  have "\<forall>s\<in>set (sessions (fst (server_run win evs (fst (server_step win ev st))))). session_ok s"
    by (rule Cons.IH)
  then show ?case by (simp add: split_beta)
qed

lemma reachable_ok:
  "\<forall>s\<in>set (sessions (fst (server_run win evs (server_init t0)))). session_ok s"
  by (rule server_run_ok) (simp add: server_init_def)

lemma rd16_be16: "rd16 (be16 w @ rest) 0 = w"
  using cat_be16 [of w] by (simp add: rd16_def be16_def)

lemma nth_pack:
  "pack q ! 0 = magic0 q" "pack q ! 1 = magic1 q" "pack q ! Suc 0 = magic1 q"
  "pack q ! 2 = version q" "pack q ! 3 = ptype q"
  by (simp_all add: pack_def)

lemma length_pack: "length (pack q) = HEADER_SIZE + length (payload q)"
  by (simp add: pack_def be32_def be16_def HEADER_SIZE_def)

lemma drop_pack: "drop HEADER_SIZE (pack q) = payload q"
  by (simp add: pack_def be32_def be16_def HEADER_SIZE_def)

lemma rd_pack:
  "rd32 (pack q) 4 = seq q" "rd32 (pack q) 8 = total_p q"
  "rd16 (pack q) 12 = of_nat (length (payload q))" "rd16 (pack q) 14 = window_p q"
  "rd32 (pack q) 16 = pack_checksum q"
  using cat_be32 [of "seq q"] cat_be32 [of "total_p q"] cat_be32 [of "pack_checksum q"]
    cat_be16 [of "window_p q"] cat_be16 [of "of_nat (length (payload q))"]
  by (simp_all add: pack_def rd32_def rd16_def be32_def be16_def)

lemma unpack_pack:
  assumes "magic0 q = 0x52" "magic1 q = 0x55" "version q = VERSION" "length (payload q) < 65536"
  shows "unpack (pack q) = Inr (q\<lparr>length_p := of_nat (length (payload q)), checksum := pack_checksum q\<rparr>)"
proof -
  have u: "unat (of_nat (length (payload q)) :: u16) = length (payload q)"
    using assms(4) by (simp add: unat_of_nat)
  show ?thesis
    using assms(1-3)
    by (simp add: unpack_def nth_pack rd_pack length_pack drop_pack u)
qed

lemma unpack_pack_ack: "unpack (pack (ack_packet e)) = Inr (ack_packet e)"
  using unpack_pack [of "ack_packet e"]
  by (simp add: ack_packet_def control_packet_def pack_checksum_def)

lemma ack_seq_value:
  assumes "e \<le> 2 ^ 32"
  shows "unat (ack_seq e) = max e 1 - 1"
proof (cases "e = 0")
  case True
  then show ?thesis by (simp add: ack_seq_def)
next
  case False
  with assms have lt: "e - 1 < 2 ^ 32" by simp
  have "unat (of_nat (e - 1) :: u32) = (e - 1) mod 2 ^ 32"
    by (simp only: unat_of_nat) simp
  with lt have "unat (of_nat (e - 1) :: u32) = e - 1" by simp
  with False show ?thesis by (simp only: ack_seq_def) (simp add: max_def)
qed

lemma seq_ack_packet: "seq (ack_packet e) = ack_seq e" "ptype (ack_packet e) = PT_ACK"
  by (simp_all add: ack_packet_def control_packet_def)

lemma handle_data_found:
  assumes "find_session ss k = Some i"
  shows "handle_data k p t1 ss =
    (if ru_crc32 (payload p) \<noteq> checksum p
     then (ss[i := (ss ! i)\<lparr>last_activity := t1\<rparr>], [pack (ack_packet (expected (ss ! i)))])
     else if unat (seq p) = expected (ss ! i)
     then (ss[i := (ss ! i)\<lparr>last_activity := t1, ofs := ofs (ss ! i) @ payload p,
                             expected := expected (ss ! i) + 1, received := received (ss ! i) + 1\<rparr>],
           [pack (ack_packet (expected (ss ! i) + 1))])
     else (ss[i := (ss ! i)\<lparr>last_activity := t1\<rparr>], [pack (ack_packet (expected (ss ! i)))]))"
  using assms by (simp add: handle_data_def Let_def)

lemma step_data:
  assumes "unpack buf = Inr p" "ptype p = PT_DATA"
  shows "server_step win (Recv k buf t1 t2 fo) st =
     (st\<lparr>sessions := fst (handle_data k p t1 (sessions st))\<rparr>, snd (handle_data k p t1 (sessions st)))"
  using assms
  by (simp add: server_step_Recv handle_datagram_def split_beta PT_DATA_def PT_HANDSHAKE_def)


subsection \<open>The scenario\<close>

lemma unpack_demo_handshake:
  "unpack demo_handshake = Inr \<lparr> magic0 = 0x52, magic1 = 0x55, version = 1, ptype = 0, seq = 0,
     total_p = 0, length_p = 9, window_p = 0, checksum = 0,
     payload = [0x66, 0x7C, 0x33, 0x7C, 0x33, 0x7C, 0x31, 0x7C, 0x38] \<rparr>"
  by (simp add: demo_handshake_def unpack_def HEADER_SIZE_def VERSION_def rd16_def rd32_def)

lemma split_demo:
  "split (c_string [0x66, 0x7C, 0x33, 0x7C, 0x33, 0x7C, 0x31, 0x7C, 0x38]) 0x7C
     = [[0x66], [0x33], [0x33], [0x31], [0x38]]"
  by (simp add: split_def c_string_def)

lemma atoll_3: "size_t_of (atoll [0x33]) = 3"
  by (simp add: size_t_of_def atoll_def isspace_def isdigit_def clamp_ll_def)

lemma demo_state_eq: "demo_state = \<lparr>sessions = [demo_session], last_cleanup = 0\<rparr>"
  by (simp add: demo_state_def server_init_def server_step_Recv handle_datagram_def
      unpack_demo_handshake PT_HANDSHAKE_def handle_handshake_def split_demo MAX_SESSIONS_def new_session_def
      atoll_3 demo_session_def demo_key_def)

lemma unpack_demo_data:
  "unpack (demo_data n) = Inr \<lparr> magic0 = 0x52, magic1 = 0x55, version = 1, ptype = 2, seq = ucast n,
     total_p = 3, length_p = 1, window_p = 8, checksum = 0xE8B7BE43, payload = [0x61] \<rparr>"
  by (simp add: demo_data_def unpack_def HEADER_SIZE_def VERSION_def rd16_def rd32_def)

lemma ru_crc32_b: "ru_crc32 [0x62] = 0x71BEEFF9"
  by (simp add: ru_crc32_eq_reference crc32_reference_def ref_byte_def ref_bits_8 ref_bit_def)

lemma unpack_demo_corrupt:
  "unpack demo_corrupt = Inr \<lparr> magic0 = 0x52, magic1 = 0x55, version = 1, ptype = 2, seq = 0,
     total_p = 3, length_p = 1, window_p = 8, checksum = 0xE8B7BE43, payload = [0x62] \<rparr>"
  by (simp add: demo_corrupt_def unpack_def HEADER_SIZE_def VERSION_def rd16_def rd32_def)

lemma find_demo: "find_session (sessions demo_state) demo_key = Some 0"
  by (simp add: demo_state_eq demo_session_def)

lemma demo_state_run: "demo_state = fst (server_run 8 [Recv demo_key demo_handshake 1000 1001 True] (server_init 0))"
  by (rule demo_state_def)

lemma unat_ucast_u8: "unat (ucast (n::u8) :: u32) = unat n"
proof -
  have "uint (ucast n :: u32) = uint n"
    by (rule uint_up_ucast) (simp add: is_up)
  then show ?thesis by (metis nat_uint_eq)
qed

subsection \<open>DATA datagrams with a valid checksum\<close>

text \<open>
  Claim C1. In every state the receiver reaches from its start, for every DATA datagram
  that arrives for an existing session and whose checksum verifies: if its sequence number
  equals \<open>expected\<close>, the payload is appended to the sink and \<open>expected\<close> and \<open>received\<close>
  grow by one; otherwise nothing is appended, nothing is buffered, and the sink,
  \<open>expected\<close>, \<open>received\<close> and the other fields that describe the transfer stay as they
  are. In both cases the one reply is an ACK whose sequence number is
  \<open>max(expected, 1) - 1\<close> for the \<open>expected\<close> after the update, and no other session
  changes. The time of arrival is stored in \<open>last_activity\<close> in both cases, as it is for
  every DATA datagram of a known peer.
\<close>

theorem C1_data_valid_checksum:
  assumes run: "st = fst (server_run win evs (server_init t0))"
    and found: "find_session (sessions st) k = Some i"
    and dec: "unpack buf = Inr p" "ptype p = PT_DATA"
    and crc: "ru_crc32 (payload p) = checksum p"
  shows "\<exists>s'. server_step win (Recv k buf t1 t2 fo) st =
           (st\<lparr>sessions := (sessions st)[i := s']\<rparr>, [pack (ack_packet (expected s'))])
      \<and> s' = (if unat (seq p) = expected (sessions st ! i)
              then (sessions st ! i)\<lparr>last_activity := t1,
                      ofs := ofs (sessions st ! i) @ payload p,
                      expected := expected (sessions st ! i) + 1,
                      received := received (sessions st ! i) + 1\<rparr>
              else (sessions st ! i)\<lparr>last_activity := t1\<rparr>)
      \<and> unpack (pack (ack_packet (expected s'))) = Inr (ack_packet (expected s'))
      \<and> ptype (ack_packet (expected s')) = PT_ACK
      \<and> unat (seq (ack_packet (expected s'))) = max (expected s') 1 - 1"
proof -
  let ?s = "sessions st ! i"
  from found have i: "i < length (sessions st)" by (simp add: find_session_Some)
  with reachable_ok [of win evs t0] run have "session_ok ?s" by simp
  then have e: "expected ?s \<le> 2 ^ 32" by (simp add: session_ok_def)
  show ?thesis
  proof (cases "unat (seq p) = expected ?s")
    case True
    with unat_lt_2p32 [of "seq p"] have "expected ?s + 1 \<le> 2 ^ 32" by simp
    then have "unat (ack_seq (expected ?s + 1)) = max (expected ?s + 1) 1 - 1"
      by (rule ack_seq_value)
    then show ?thesis using True crc
      by (simp add: step_data [OF dec] handle_data_found [OF found] unpack_pack_ack seq_ack_packet
          del: server_step.simps)
  next
    case False
    then show ?thesis using crc ack_seq_value [OF e]
      by (simp add: step_data [OF dec] handle_data_found [OF found] unpack_pack_ack seq_ack_packet
          del: server_step.simps)
  qed
qed

theorem C1_data_valid_checksum_witness:
  "server_step 8 (Recv demo_key (demo_data 0) 2000 2000 True) demo_state =
     (demo_state\<lparr>sessions := [\<lparr> key = demo_key, ofs = [0x61], filename = [0x66], expected = 1,
         total_s = 3, received = 1, active = True, session_id = 1001, last_activity = 2000 \<rparr>]\<rparr>,
      [pack (ack_packet 1)])
   \<and> unat (seq (ack_packet 1)) = 0"
proof -
  have crc: "ru_crc32 (payload \<lparr> magic0 = 0x52, magic1 = 0x55, version = 1, ptype = 2, seq = ucast (0::u8),
     total_p = 3, length_p = 1, window_p = 8, checksum = 0xE8B7BE43, payload = [0x61] \<rparr>)
     = checksum \<lparr> magic0 = 0x52, magic1 = 0x55, version = 1, ptype = 2, seq = ucast (0::u8),
     total_p = 3, length_p = 1, window_p = 8, checksum = 0xE8B7BE43, payload = [0x61] \<rparr>"
    by (simp add: ru_crc32_a)
  have ty: "ptype \<lparr> magic0 = 0x52, magic1 = 0x55, version = 1, ptype = 2, seq = ucast (0::u8),
     total_p = 3, length_p = 1, window_p = 8, checksum = 0xE8B7BE43, payload = [0x61] \<rparr> = PT_DATA"
    by (simp add: PT_DATA_def)
  have s0: "sessions demo_state ! 0 = demo_session"
    by (simp add: demo_state_eq)
  from C1_data_valid_checksum [OF demo_state_run find_demo unpack_demo_data ty crc,
      of 2000 2000 True]
  show ?thesis
    by (simp add: s0 demo_session_def del: server_step.simps) (simp add: demo_state_eq)
qed

subsection \<open>DATA datagrams with a wrong checksum\<close>

text \<open>
  Claim C6. In every state the receiver reaches from its start, for every DATA datagram
  that arrives for an existing session and whose checksum field differs from the CRC-32 of
  its payload: nothing is written to the sink, \<open>expected\<close> and \<open>received\<close> and the other
  fields that describe the transfer stay as they are, no other session changes, and the one
  reply is an ACK with sequence number \<open>expected - 1\<close>, or 0 when \<open>expected\<close> is 0. The time
  of arrival is stored in \<open>last_activity\<close>, as it is for every DATA datagram of a known
  peer.
\<close>

theorem C6_checksum_mismatch:
  assumes run: "st = fst (server_run win evs (server_init t0))"
    and found: "find_session (sessions st) k = Some i"
    and dec: "unpack buf = Inr p" "ptype p = PT_DATA"
    and crc: "ru_crc32 (payload p) \<noteq> checksum p"
  shows "server_step win (Recv k buf t1 t2 fo) st =
           (st\<lparr>sessions := (sessions st)[i := (sessions st ! i)\<lparr>last_activity := t1\<rparr>]\<rparr>,
            [pack (ack_packet (expected (sessions st ! i)))])
      \<and> unpack (pack (ack_packet (expected (sessions st ! i))))
          = Inr (ack_packet (expected (sessions st ! i)))
      \<and> ptype (ack_packet (expected (sessions st ! i))) = PT_ACK
      \<and> unat (seq (ack_packet (expected (sessions st ! i))))
          = (if expected (sessions st ! i) = 0 then 0 else expected (sessions st ! i) - 1)"
proof -
  let ?s = "sessions st ! i"
  from found have i: "i < length (sessions st)" by (simp add: find_session_Some)
  with reachable_ok [of win evs t0] run have "session_ok ?s" by simp
  then have e: "expected ?s \<le> 2 ^ 32" by (simp add: session_ok_def)
  show ?thesis using crc ack_seq_value [OF e]
    by (simp add: step_data [OF dec] handle_data_found [OF found] unpack_pack_ack seq_ack_packet
        max_def del: server_step.simps)
qed

theorem C6_checksum_mismatch_witness:
  "server_step 8 (Recv demo_key demo_corrupt 2000 2000 True) demo_state =
     (demo_state\<lparr>sessions := (sessions demo_state)[0 := (sessions demo_state ! 0)\<lparr>last_activity := 2000\<rparr>]\<rparr>,
      [pack (ack_packet 0)])
   \<and> unat (seq (ack_packet 0)) = 0"
proof -
  have crc: "ru_crc32 (payload \<lparr> magic0 = 0x52, magic1 = 0x55, version = 1, ptype = 2, seq = 0,
        total_p = 3, length_p = 1, window_p = 8, checksum = 0xE8B7BE43, payload = [0x62] \<rparr>)
     \<noteq> checksum \<lparr> magic0 = 0x52, magic1 = 0x55, version = 1, ptype = 2, seq = 0,
        total_p = 3, length_p = 1, window_p = 8, checksum = 0xE8B7BE43, payload = [0x62] \<rparr>"
    by (simp add: ru_crc32_b)
  have ty: "ptype \<lparr> magic0 = 0x52, magic1 = 0x55, version = 1, ptype = 2, seq = 0,
        total_p = 3, length_p = 1, window_p = 8, checksum = 0xE8B7BE43, payload = [0x62] \<rparr> = PT_DATA"
    by (simp add: PT_DATA_def)
  have e0: "expected (sessions demo_state ! 0) = 0"
    by (simp add: demo_state_eq demo_session_def)
  from C6_checksum_mismatch [OF demo_state_run find_demo unpack_demo_corrupt ty crc,
      of 2000 2000 True]
  show ?thesis
    by (simp add: e0 del: server_step.simps)
qed


subsection \<open>Handshakes\<close>

lemma step_handshake:
  assumes "unpack buf = Inr p" "ptype p = PT_HANDSHAKE"
  shows "server_step win (Recv k buf t1 t2 fo) st =
     (st\<lparr>sessions := fst (handle_handshake win k p t1 t2 fo (sessions st))\<rparr>,
      snd (handle_handshake win k p t1 t2 fo (sessions st)))"
  using assms by (simp add: server_step_Recv handle_datagram_def split_beta)

lemma handle_handshake_full:
  assumes "length ss = MAX_SESSIONS" "find_session ss k = None"
    "5 \<le> length (split (c_string (payload p)) 0x7C)"
  shows "handle_handshake win k p t1 t2 fo ss = (ss, [])"
  using assms by (simp add: handle_handshake_def cleanup_old_absent)

lemma peer_key_differs: "demo_key \<noteq> peer_key n"
  by (simp add: peer_key_def demo_key_def)

lemma full_state_length: "length (sessions full_state) = 100"
  by (simp add: full_state_def)

lemma full_state_absent: "find_session (sessions full_state) demo_key = None"
  by (auto simp: find_session_None full_state_def peer_key_differs)

lemma demo_handshake_fields:
  "length (split (c_string (payload \<lparr> magic0 = 0x52, magic1 = 0x55, version = 1, ptype = 0,
     seq = 0, total_p = 0, length_p = 9, window_p = 0, checksum = 0,
     payload = [0x66, 0x7C, 0x33, 0x7C, 0x33, 0x7C, 0x31, 0x7C, 0x38] \<rparr>)) 0x7C) = 5"
  by (simp add: split_demo)

text \<open>The full table is what the receiver holds after the handshakes of the hundred peers.\<close>

lemma server_run_snoc:
  "fst (server_run win (evs @ [ev]) st) = fst (server_step win ev (fst (server_run win evs st)))"
  by (induction evs arbitrary: st) (simp_all add: split_beta)

lemma peer_key_inj:
  assumes "peer_key n = peer_key m" "n < 100" "m < 100"
  shows "n = m"
proof -
  from assms(1) have c: "char_of (48 + n div 10) = (char_of (48 + m div 10) :: char)"
    "char_of (48 + n mod 10) = (char_of (48 + m mod 10) :: char)"
    by (simp_all add: peer_key_def)
  have "48 + n div 10 \<in> {0..<256}" "48 + m div 10 \<in> {0..<256}"
    "48 + n mod 10 \<in> {0..<256}" "48 + m mod 10 \<in> {0..<256}"
    using assms(2,3) by auto
  with c have "48 + n div 10 = 48 + m div 10" "48 + n mod 10 = 48 + m mod 10"
    using inj_on_char_of_nat by (auto dest: inj_onD)
  then have "n div 10 = m div 10" "n mod 10 = m mod 10" by simp_all
  then show ?thesis by (metis div_mult_mod_eq)
qed

lemma new_session_demo:
  "new_session (peer_key n) [[0x66], [0x33], [0x33], [0x31], [0x38]] 1000 1001
     = demo_session\<lparr>key := peer_key n\<rparr>"
  by (simp add: new_session_def demo_session_def atoll_3 peer_key_def)

lemma handshakes_fill_table:
  "m \<le> 100 \<Longrightarrow>
   fst (server_run 8 (map (\<lambda>n. Recv (peer_key n) demo_handshake 1000 1001 True) [0..<m])
          (server_init 0))
     = \<lparr>sessions = map (\<lambda>n. demo_session\<lparr>key := peer_key n\<rparr>) [0..<m], last_cleanup = 0\<rparr>"
proof (induction m)
  case 0
  then show ?case by (simp add: server_init_def)
next
  case (Suc m)
  let ?tab = "map (\<lambda>n. demo_session\<lparr>key := peer_key n\<rparr>) [0..<m]"
  from Suc.prems have m: "m < 100" by simp
  have "peer_key m \<noteq> peer_key n" if "n < m" for n
  proof
    assume "peer_key m = peer_key n"
    with that m have "m = n" by (intro peer_key_inj) simp_all
    with that show False by simp
  qed
  note ne = this
  have "peer_key m \<notin> key ` set ?tab"
  proof
    assume "peer_key m \<in> key ` set ?tab"
    then obtain n where "n < m" "peer_key m = peer_key n" by auto
    with ne show False by blast
  qed
  then have absent: "find_session ?tab (peer_key m) = None"
    unfolding find_session_None .
  have "handle_handshake 8 (peer_key m) \<lparr> magic0 = 0x52, magic1 = 0x55, version = 1, ptype = 0,
        seq = 0, total_p = 0, length_p = 9, window_p = 0, checksum = 0,
        payload = [0x66, 0x7C, 0x33, 0x7C, 0x33, 0x7C, 0x31, 0x7C, 0x38] \<rparr> 1000 1001 True ?tab
      = (?tab @ [demo_session\<lparr>key := peer_key m\<rparr>],
         [pack (handshake_ack_packet 3 8)])"
    using m by (simp add: handle_handshake_def split_demo cleanup_old_absent [OF absent]
        MAX_SESSIONS_def new_session_demo) (simp add: demo_session_def)
  then have "fst (server_step 8 (Recv (peer_key m) demo_handshake 1000 1001 True)
        \<lparr>sessions = ?tab, last_cleanup = 0\<rparr>)
      = \<lparr>sessions = ?tab @ [demo_session\<lparr>key := peer_key m\<rparr>], last_cleanup = 0\<rparr>"
    by (simp add: step_handshake [OF unpack_demo_handshake] PT_HANDSHAKE_def
        del: server_step.simps)
  with Suc.IH m show ?case
    by (simp add: server_run_snoc del: server_step.simps)
qed

lemma full_state_reachable:
  "full_state = fst (server_run 8
      (map (\<lambda>n. Recv (peer_key n) demo_handshake 1000 1001 True) [0..<100]) (server_init 0))"
  using handshakes_fill_table [of 100] by (simp add: full_state_def)

text \<open>
  Claim C7, as stated, fails: the handshake is not answered with an ERROR. With the table
  holding the sessions of a hundred other peers, the handshake of the scenario, which has
  five metadata fields, is answered with nothing at all; the table stays as it is.
\<close>

theorem C7_capacity_counterexample:
  "length (sessions full_state) = 100
   \<and> find_session (sessions full_state) demo_key = None
   \<and> unpack demo_handshake = Inr \<lparr> magic0 = 0x52, magic1 = 0x55, version = 1, ptype = 0,
        seq = 0, total_p = 0, length_p = 9, window_p = 0, checksum = 0,
        payload = [0x66, 0x7C, 0x33, 0x7C, 0x33, 0x7C, 0x31, 0x7C, 0x38] \<rparr>
   \<and> split (c_string [0x66, 0x7C, 0x33, 0x7C, 0x33, 0x7C, 0x31, 0x7C, 0x38]) 0x7C
        = [[0x66], [0x33], [0x33], [0x31], [0x38]]
   \<and> snd (server_step 8 (Recv demo_key demo_handshake 1000 1001 True) full_state) = []
   \<and> fst (server_step 8 (Recv demo_key demo_handshake 1000 1001 True) full_state) = full_state"
proof -
  have "handle_handshake 8 demo_key \<lparr> magic0 = 0x52, magic1 = 0x55, version = 1, ptype = 0,
        seq = 0, total_p = 0, length_p = 9, window_p = 0, checksum = 0,
        payload = [0x66, 0x7C, 0x33, 0x7C, 0x33, 0x7C, 0x31, 0x7C, 0x38] \<rparr> 1000 1001 True
        (sessions full_state) = (sessions full_state, [])"
    by (rule handle_handshake_full)
       (simp_all add: full_state_length MAX_SESSIONS_def full_state_absent split_demo)
  then show ?thesis
    by (simp add: full_state_length full_state_absent unpack_demo_handshake split_demo
        step_handshake [OF unpack_demo_handshake] PT_HANDSHAKE_def del: server_step.simps)
qed

text \<open>
  Claim C7, amended. When a well-formed HANDSHAKE with at least 5 metadata fields arrives
  from a peer that has no session while the table holds 100 sessions, the receiver sends
  no reply (neither ERROR nor HANDSHAKE_ACK), creates no session and leaves the table as
  it is.
\<close>

theorem C7_capacity_drop:
  assumes full: "length (sessions st) = 100"
    and absent: "find_session (sessions st) k = None"
    and dec: "unpack buf = Inr p" "ptype p = PT_HANDSHAKE"
    and fields: "5 \<le> length (split (c_string (payload p)) 0x7C)"
  shows "server_step win (Recv k buf t1 t2 fo) st = (st, [])"
  using handle_handshake_full [of "sessions st" k p win t1 t2 fo] full absent fields
  by (simp add: step_handshake [OF dec] MAX_SESSIONS_def del: server_step.simps)

theorem C7_capacity_drop_witness:
  "server_step 8 (Recv demo_key demo_handshake 5000 5001 True) full_state = (full_state, [])"
proof -
  have ty: "ptype \<lparr> magic0 = 0x52, magic1 = 0x55, version = 1, ptype = 0,
        seq = 0, total_p = 0, length_p = 9, window_p = 0, checksum = 0,
        payload = [0x66, 0x7C, 0x33, 0x7C, 0x33, 0x7C, 0x31, 0x7C, 0x38] \<rparr> = PT_HANDSHAKE"
    by (simp add: PT_HANDSHAKE_def)
  have f: "5 \<le> length (split (c_string (payload \<lparr> magic0 = 0x52, magic1 = 0x55, version = 1, ptype = 0,
     seq = 0, total_p = 0, length_p = 9, window_p = 0, checksum = 0,
     payload = [0x66, 0x7C, 0x33, 0x7C, 0x33, 0x7C, 0x31, 0x7C, 0x38] \<rparr>)) 0x7C)"
    by (simp add: split_demo)
  show ?thesis
    by (rule C7_capacity_drop [OF full_state_length full_state_absent unpack_demo_handshake ty f])
qed

subsection \<open>The bound of \<open>expected\<close> by \<open>total\<close>\<close>

lemma handle_handshake_within:
  assumes "\<forall>s\<in>set ss. within_total s"
  shows "\<forall>s\<in>set (fst (handle_handshake win k p t1 t2 fo ss)). within_total s"
  using assms set_cleanup_old [of ss k]
  by (auto simp: handle_handshake_def Let_def new_session_def within_total_def)

lemma handle_fin_within:
  assumes "\<forall>s\<in>set ss. within_total s"
  shows "\<forall>s\<in>set (fst (handle_fin k ss)). within_total s"
  using assms set_remove_session by (auto simp: handle_fin_def split: option.splits)

lemma handle_data_within:
  assumes inv: "\<forall>s\<in>set ss. within_total s"
    and rng: "\<And>i. find_session ss k = Some i \<Longrightarrow> ru_crc32 (payload p) = checksum p \<Longrightarrow>
               unat (seq p) = expected (ss ! i) \<Longrightarrow> unat (seq p) < total_s (ss ! i)"
  shows "\<forall>s\<in>set (fst (handle_data k p t1 ss)). within_total s"
proof (cases "find_session ss k")
  case None
  then show ?thesis using inv by (simp add: handle_data_def)
next
  case (Some i)
  then have i: "i < length ss" by (simp add: find_session_Some)
  then have ok: "within_total (ss ! i)" using inv by simp
  have a: "within_total ((ss ! i)\<lparr>last_activity := t1\<rparr>)"
    using ok by (simp add: within_total_def)
  have b: "ru_crc32 (payload p) = checksum p \<Longrightarrow> unat (seq p) = expected (ss ! i) \<Longrightarrow>
     within_total ((ss ! i)\<lparr>last_activity := t1, ofs := ofs (ss ! i) @ payload p,
        expected := expected (ss ! i) + 1, received := received (ss ! i) + 1\<rparr>)"
    using rng [OF Some] by (simp add: within_total_def)
  from a b show ?thesis using inv Some
    by (auto simp: handle_data_def Let_def dest!: set_update_subset_insert [THEN subsetD])
qed

lemma server_step_within:
  assumes inv: "\<forall>s\<in>set (sessions st). within_total s"
    and rng: "commit_below_total ev st"
  shows "\<forall>s\<in>set (sessions (fst (server_step win ev st))). within_total s"
proof (cases ev)
  case (Recv k buf t1 t2 fo)
  show ?thesis
  proof (cases "unpack buf")
    case (Inl e)
    then show ?thesis using inv Recv by (simp add: server_step_Recv handle_datagram_def)
  next
    case (Inr p)
    have d: "ptype p = PT_DATA \<Longrightarrow> \<forall>s\<in>set (fst (handle_data k p t1 (sessions st))). within_total s"
    proof (rule handle_data_within [OF inv])
      fix i assume "ptype p = PT_DATA" "find_session (sessions st) k = Some i"
        "ru_crc32 (payload p) = checksum p" "unat (seq p) = expected (sessions st ! i)"
      with rng Recv Inr show "unat (seq p) < total_s (sessions st ! i)"
        by (simp add: commit_below_total_def)
    qed
    show ?thesis
      using handle_handshake_within [OF inv, of win k p t1 t2 fo] d
        handle_fin_within [OF inv, of k] inv
      by (simp add: Recv server_step_Recv handle_datagram_def Inr split_beta)
  qed
next
  case (WouldBlock now now')
  then show ?thesis using inv set_cleanup_inactive by auto
next
  case RecvError
  then show ?thesis using inv by simp
qed

lemma server_run_within:
  assumes "\<forall>s\<in>set (sessions st). within_total s" "commits_below_total win evs st"
  shows "\<forall>s\<in>set (sessions (fst (server_run win evs st))). within_total s"
  using assms
proof (induction evs arbitrary: st)
  case Nil
  then show ?case by simp
next
  case (Cons ev evs)
  from Cons.prems have r: "commit_below_total ev st"
    and rs: "commits_below_total win evs (fst (server_step win ev st))" by simp_all
  from server_step_within [OF Cons.prems(1) r, of win]
  have "\<forall>s\<in>set (sessions (fst (server_run win evs (fst (server_step win ev st))))). within_total s"
    using rs by (rule Cons.IH)
  then show ?case by (simp add: split_beta)
qed

text \<open>What the receiver does with a DATA datagram for a session that has
  \<open>expected = total\<close>.\<close>

lemma step_data_complete:
  assumes found: "find_session (sessions st) k = Some i"
    and dec: "unpack buf = Inr p" "ptype p = PT_DATA"
    and full: "expected (sessions st ! i) = total_s (sessions st ! i)"
  shows "server_step win (Recv k buf t1 t2 fo) st =
           (if ru_crc32 (payload p) = checksum p \<and> unat (seq p) = total_s (sessions st ! i)
            then (st\<lparr>sessions := (sessions st)[i := (sessions st ! i)\<lparr>last_activity := t1,
                        ofs := ofs (sessions st ! i) @ payload p,
                        expected := total_s (sessions st ! i) + 1,
                        received := received (sessions st ! i) + 1\<rparr>]\<rparr>,
                  [pack (ack_packet (total_s (sessions st ! i) + 1))])
            else (st\<lparr>sessions := (sessions st)[i := (sessions st ! i)\<lparr>last_activity := t1\<rparr>]\<rparr>,
                  [pack (ack_packet (total_s (sessions st ! i)))]))"
  using full
  by (simp add: step_data [OF dec] handle_data_found [OF found] del: server_step.simps)

text \<open>The handling of a DATA datagram does not read the totals: with other totals in the
  table the same is committed and the same is replied.\<close>

lemma find_session_total: "find_session (map (total_s_update g) ss) k = find_session ss k"
  by (induction ss) simp_all

lemma handle_data_ignores_total:
  "handle_data k p t1 (map (total_s_update g) ss) =
     (map (total_s_update g) (fst (handle_data k p t1 ss)), snd (handle_data k p t1 ss))"
proof (cases "find_session ss k")
  case None
  then show ?thesis by (simp add: handle_data_def find_session_total)
next
  case (Some i)
  then have i: "i < length ss" by (simp add: find_session_Some)
  obtain a b c d e f g h j where s: "ss ! i = \<lparr>key = a, ofs = b, filename = c, expected = d,
     total_s = e, received = f, active = g, session_id = h, last_activity = j\<rparr>"
    by (cases "ss ! i") 
  show ?thesis using Some i
    by (simp add: handle_data_def find_session_total Let_def map_update s)
qed

lemma demo_complete_eq:
  "demo_complete = \<lparr>sessions = [demo_session\<lparr>last_activity := 1030, ofs := [0x61, 0x61, 0x61],
      expected := 3, received := 3\<rparr>], last_cleanup = 0\<rparr>"
proof -
  have u: "unat (ucast (0::u8) :: u32) = 0" "unat (ucast (1::u8) :: u32) = 1"
    "unat (ucast (2::u8) :: u32) = 2"
    by (simp_all add: unat_ucast_u8)
  have d: "demo_complete = fst (server_run 8
     [Recv demo_key (demo_data 0) 1010 1010 True, Recv demo_key (demo_data 1) 1020 1020 True,
      Recv demo_key (demo_data 2) 1030 1030 True] demo_state)"
    by (simp add: demo_complete_def demo_state_def split_beta)
  show ?thesis
    unfolding d demo_state_eq
    by (simp add: split_beta server_step_Recv handle_datagram_def unpack_demo_data PT_DATA_def
        PT_HANDSHAKE_def handle_data_def ru_crc32_a u demo_session_def)
qed

text \<open>
  Claim C3, as stated, fails. In the scenario the session has \<open>total = 3\<close>; after the
  DATA datagrams 0, 1 and 2 it has \<open>expected = 3 = total\<close>; the DATA datagram 3 that
  follows is committed to the sink all the same, and \<open>expected\<close> becomes 4.
\<close>

theorem C3_expected_total_counterexample:
  "total_s (sessions demo_complete ! 0) = 3
   \<and> expected (sessions demo_complete ! 0) = 3
   \<and> ofs (sessions demo_complete ! 0) = [0x61, 0x61, 0x61]
   \<and> total_s (sessions (fst (server_step 8 (Recv demo_key (demo_data 3) 1040 1040 True)
         demo_complete)) ! 0) = 3
   \<and> expected (sessions (fst (server_step 8 (Recv demo_key (demo_data 3) 1040 1040 True)
         demo_complete)) ! 0) = 4
   \<and> ofs (sessions (fst (server_step 8 (Recv demo_key (demo_data 3) 1040 1040 True)
         demo_complete)) ! 0) = [0x61, 0x61, 0x61, 0x61]"
proof -
  have u: "unat (ucast (3::u8) :: u32) = 3"
    by (simp add: unat_ucast_u8)
  show ?thesis
    unfolding demo_complete_eq
    by (simp add: split_beta server_step_Recv handle_datagram_def unpack_demo_data PT_DATA_def
        PT_HANDSHAKE_def handle_data_def ru_crc32_a u demo_session_def)
qed

text \<open>
  Claim C3, amended. For every receiver session and every sequence of inbound datagrams
  in which every DATA datagram that is committed (it reaches a session, its checksum
  verifies and its sequence number equals \<open>expected\<close>) has a sequence number below the
  total of its session, \<open>expected \<le> total\<close> holds at all times; DATA datagrams that are
  dropped may carry any sequence number. Once a session has \<open>expected = total\<close>, in any
  state the receiver reaches, a DATA datagram for it is committed to the sink exactly when
  its checksum verifies and its sequence number equals \<open>total\<close>, and \<open>expected\<close> then
  becomes \<open>total + 1\<close>; no other DATA payload is committed.
\<close>

theorem C3_expected_within_total:
  assumes run: "st = fst (server_run win evs (server_init t0))"
  shows "(commits_below_total win evs (server_init t0)
            \<longrightarrow> (\<forall>s\<in>set (sessions st). expected s \<le> total_s s))
     \<and> (\<forall>k buf p i t1 t2 fo.
          find_session (sessions st) k = Some i \<and> unpack buf = Inr p \<and> ptype p = PT_DATA
          \<and> expected (sessions st ! i) = total_s (sessions st ! i)
          \<longrightarrow> server_step win (Recv k buf t1 t2 fo) st =
                (if ru_crc32 (payload p) = checksum p \<and> unat (seq p) = total_s (sessions st ! i)
                 then (st\<lparr>sessions := (sessions st)[i := (sessions st ! i)\<lparr>last_activity := t1,
                             ofs := ofs (sessions st ! i) @ payload p,
                             expected := total_s (sessions st ! i) + 1,
                             received := received (sessions st ! i) + 1\<rparr>]\<rparr>,
                       [pack (ack_packet (total_s (sessions st ! i) + 1))])
                 else (st\<lparr>sessions := (sessions st)[i := (sessions st ! i)\<lparr>last_activity := t1\<rparr>]\<rparr>,
                       [pack (ack_packet (total_s (sessions st ! i)))])))"
proof (intro conjI allI impI)
  assume rng: "commits_below_total win evs (server_init t0)"
  have "\<forall>s\<in>set (sessions (fst (server_run win evs (server_init t0)))). within_total s"
    by (rule server_run_within [OF _ rng]) (simp add: server_init_def)
  then show "\<forall>s\<in>set (sessions st). expected s \<le> total_s s"
    by (simp add: run within_total_def)
next
  fix k buf p i t1 t2 fo
  assume "find_session (sessions st) k = Some i \<and> unpack buf = Inr p \<and> ptype p = PT_DATA
          \<and> expected (sessions st ! i) = total_s (sessions st ! i)"
  then have a: "find_session (sessions st) k = Some i" "unpack buf = Inr p" "ptype p = PT_DATA"
    "expected (sessions st ! i) = total_s (sessions st ! i)"
    by simp_all
  show "server_step win (Recv k buf t1 t2 fo) st =
                (if ru_crc32 (payload p) = checksum p \<and> unat (seq p) = total_s (sessions st ! i)
                 then (st\<lparr>sessions := (sessions st)[i := (sessions st ! i)\<lparr>last_activity := t1,
                             ofs := ofs (sessions st ! i) @ payload p,
                             expected := total_s (sessions st ! i) + 1,
                             received := received (sessions st ! i) + 1\<rparr>]\<rparr>,
                       [pack (ack_packet (total_s (sessions st ! i) + 1))])
                 else (st\<lparr>sessions := (sessions st)[i := (sessions st ! i)\<lparr>last_activity := t1\<rparr>]\<rparr>,
                       [pack (ack_packet (total_s (sessions st ! i)))]))"
    by (rule step_data_complete [OF a])
qed

text \<open>The run of the scenario commits only below the total, although the DATA datagram
  7, which is dropped, is part of it.\<close>

lemma demo_commits_below_total:
  "commits_below_total 8
     [Recv demo_key demo_handshake 1000 1001 True,
      Recv demo_key (demo_data 7) 1005 1005 True,
      Recv demo_key (demo_data 0) 1010 1010 True, Recv demo_key (demo_data 1) 1020 1020 True,
      Recv demo_key (demo_data 2) 1030 1030 True]
     (server_init 0)"
proof -
  have u: "unat (ucast (0::u8) :: u32) = 0" "unat (ucast (1::u8) :: u32) = 1"
    "unat (ucast (2::u8) :: u32) = 2" "unat (ucast (7::u8) :: u32) = 7"
    by (simp_all add: unat_ucast_u8)
  have h: "fst (server_step 8 (Recv demo_key demo_handshake 1000 1001 True) (server_init 0))
      = \<lparr>sessions = [demo_session], last_cleanup = 0\<rparr>"
    using demo_state_eq by (simp add: demo_state_def split_beta)
  have e0: "commit_below_total (Recv demo_key demo_handshake 1000 1001 True) (server_init 0)"
    by (simp add: commit_below_total_def server_init_def unpack_demo_handshake)
  show ?thesis
    unfolding commits_below_total.simps h
    by (simp add: e0)
       (simp add: commit_below_total_def split_beta server_step_Recv handle_datagram_def
        unpack_demo_data PT_DATA_def PT_HANDSHAKE_def handle_data_def ru_crc32_a u
        demo_session_def)
qed

lemma server_run_Cons_fst:
  "fst (server_run win (ev # evs) st) = fst (server_run win evs (fst (server_step win ev st)))"
  by (simp add: split_beta del: server_step.simps)

lemma demo_complete_run:
  "demo_complete =
     fst (server_run 8
       [Recv demo_key demo_handshake 1000 1001 True,
        Recv demo_key (demo_data 7) 1005 1005 True,
        Recv demo_key (demo_data 0) 1010 1010 True, Recv demo_key (demo_data 1) 1020 1020 True,
        Recv demo_key (demo_data 2) 1030 1030 True]
       (server_init 0))"
proof -
  have u: "unat (ucast (0::u8) :: u32) = 0" "unat (ucast (1::u8) :: u32) = 1"
    "unat (ucast (2::u8) :: u32) = 2" "unat (ucast (7::u8) :: u32) = 7"
    by (simp_all add: unat_ucast_u8)
  have h: "fst (server_step 8 (Recv demo_key demo_handshake 1000 1001 True) (server_init 0))
      = \<lparr>sessions = [demo_session], last_cleanup = 0\<rparr>"
    using demo_state_eq by (simp add: demo_state_def split_beta)
  show ?thesis
    unfolding demo_complete_eq server_run_Cons_fst [of _ "Recv demo_key demo_handshake 1000 1001 True"] h
    by (simp add: split_beta server_step_Recv handle_datagram_def
        unpack_demo_data PT_DATA_def PT_HANDSHAKE_def handle_data_def ru_crc32_a u
        demo_session_def)
qed

theorem C3_expected_within_total_witness:
  "expected (sessions demo_complete ! 0) \<le> total_s (sessions demo_complete ! 0)
   \<and> server_step 8 (Recv demo_key (demo_data 2) 1050 1050 True) demo_complete =
        (demo_complete\<lparr>sessions :=
           (sessions demo_complete)[0 := (sessions demo_complete ! 0)\<lparr>last_activity := 1050\<rparr>]\<rparr>,
         [pack (ack_packet 3)])
   \<and> server_step 8 (Recv demo_key (demo_data 3) 1050 1050 True) demo_complete =
        (demo_complete\<lparr>sessions :=
           (sessions demo_complete)[0 := (sessions demo_complete ! 0)\<lparr>last_activity := 1050,
              ofs := [0x61, 0x61, 0x61, 0x61], expected := 4, received := 4\<rparr>]\<rparr>,
         [pack (ack_packet 4)])"
proof -
  let ?evs = "[Recv demo_key demo_handshake 1000 1001 True,
        Recv demo_key (demo_data 7) 1005 1005 True,
        Recv demo_key (demo_data 0) 1010 1010 True, Recv demo_key (demo_data 1) 1020 1020 True,
        Recv demo_key (demo_data 2) 1030 1030 True]"
  have run: "demo_complete = fst (server_run 8 ?evs (server_init 0))"
    by (rule demo_complete_run)
  have f: "find_session (sessions demo_complete) demo_key = Some 0"
    by (simp add: demo_complete_eq demo_session_def)
  have m: "sessions demo_complete ! 0 \<in> set (sessions demo_complete)"
    by (simp add: demo_complete_eq)
  have ty: "ptype \<lparr> magic0 = 0x52, magic1 = 0x55, version = 1, ptype = 2, seq = ucast (n::u8),
     total_p = 3, length_p = 1, window_p = 8, checksum = 0xE8B7BE43, payload = [0x61] \<rparr> = PT_DATA"
    for n
    by (simp add: PT_DATA_def)
  have c: "expected (sessions demo_complete ! 0) = total_s (sessions demo_complete ! 0)"
    "total_s (sessions demo_complete ! 0) = 3" "received (sessions demo_complete ! 0) = 3"
    "ofs (sessions demo_complete ! 0) = [0x61, 0x61, 0x61]"
    by (simp_all add: demo_complete_eq demo_session_def)
  have u: "unat (ucast (2::u8) :: u32) = 2" "unat (ucast (3::u8) :: u32) = 3"
    by (simp_all add: unat_ucast_u8)
  note t = C3_expected_within_total [OF run]
  from t demo_commits_below_total m
  have 1: "expected (sessions demo_complete ! 0) \<le> total_s (sessions demo_complete ! 0)"
    by blast
  note r = t [THEN conjunct2, THEN spec, THEN spec, THEN spec, THEN spec, THEN spec, THEN spec,
      THEN spec, THEN mp]
  have 2: "server_step 8 (Recv demo_key (demo_data 2) 1050 1050 True) demo_complete =
        (demo_complete\<lparr>sessions :=
           (sessions demo_complete)[0 := (sessions demo_complete ! 0)\<lparr>last_activity := 1050\<rparr>]\<rparr>,
         [pack (ack_packet 3)])"
    by (subst r [OF conjI [OF f conjI [OF unpack_demo_data [of 2] conjI [OF ty c(1)]]]])
       (simp add: c(2) u ru_crc32_a)
  have 3: "server_step 8 (Recv demo_key (demo_data 3) 1050 1050 True) demo_complete =
        (demo_complete\<lparr>sessions :=
           (sessions demo_complete)[0 := (sessions demo_complete ! 0)\<lparr>last_activity := 1050,
              ofs := [0x61, 0x61, 0x61, 0x61], expected := 4, received := 4\<rparr>]\<rparr>,
         [pack (ack_packet 4)])"
    by (subst r [OF conjI [OF f conjI [OF unpack_demo_data [of 3] conjI [OF ty c(1)]]]])
       (simp add: c(2,3,4) u ru_crc32_a)
  from 1 2 3 show ?thesis by simp
qed

subsection \<open>The metadata of a handshake\<close>

lemma digits_value_no_digit: "takeWhile isdigit xs = [] \<Longrightarrow> digits_value 0 xs = 0"
  by (cases xs) (auto split: if_splits)

lemma atoll_non_numeric:
  assumes "non_numeric s"
  shows "atoll s = 0"
proof (cases "dropWhile isspace s")
  case Nil
  show ?thesis unfolding atoll_def Nil by simp
next
  case (Cons c cs)
  show ?thesis
  proof (cases "c = 0x2D \<or> c = 0x2B")
    case True
    with assms have "takeWhile isdigit cs = []"
      unfolding non_numeric_def leading_digits_def Cons by auto
    then have "digits_value 0 cs = 0" by (rule digits_value_no_digit)
    with True show ?thesis unfolding atoll_def Cons by (auto simp: clamp_ll_def)
  next
    case False
    with assms have "takeWhile isdigit (c # cs) = []"
      unfolding non_numeric_def leading_digits_def Cons by (simp del: takeWhile.simps)
    then have "digits_value 0 (c # cs) = 0" by (rule digits_value_no_digit)
    with False show ?thesis unfolding atoll_def Cons
      by (simp add: clamp_ll_def del: digits_value.simps)
  qed
qed

lemma handle_handshake_short:
  "length (split (c_string (payload p)) 0x7C) < 5 \<Longrightarrow>
   handle_handshake win k p t1 t2 fo ss = (ss, [pack (error_packet ''bad handshake'')])"
  by (simp add: handle_handshake_def)

lemma handle_handshake_accept:
  "5 \<le> length (split (c_string (payload p)) 0x7C) \<Longrightarrow>
   length (cleanup_old_session ss k) < 100 \<Longrightarrow>
   handle_handshake win k p t1 t2 True ss =
     (cleanup_old_session ss k @ [new_session k (split (c_string (payload p)) 0x7C) t1 t2],
      [pack (handshake_ack_packet
         (total_s (new_session k (split (c_string (payload p)) 0x7C) t1 t2)) win)])"
  by (simp add: handle_handshake_def MAX_SESSIONS_def Let_def)

lemma handle_handshake_same_fields:
  assumes "5 \<le> length (split (c_string (payload p)) 0x7C)"
    "5 \<le> length (split (c_string (payload p')) 0x7C)"
    "split (c_string (payload p')) 0x7C ! 0 = split (c_string (payload p)) 0x7C ! 0"
    "split (c_string (payload p')) 0x7C ! 2 = split (c_string (payload p)) 0x7C ! 2"
  shows "handle_handshake win k p' t1 t2 fo ss = handle_handshake win k p t1 t2 fo ss"
  using assms by (simp add: handle_handshake_def Let_def new_session_def)

text \<open>
  Claim C10. A handshake with fewer than five metadata fields is answered with the ERROR
  \<^verbatim>\<open>bad handshake\<close> and changes nothing. Of a handshake with at least five fields the
  receiver reads only the first and the third: when it is accepted (the table has room
  once an older session of the peer is removed, and the output file can be created) the
  session created has the first field, cut to 255 octets, as its file name and
  \<^verbatim>\<open>(size_t)atoll\<close> of the third as its total, which is also the total of the
  HANDSHAKE_ACK sent; a third field that is empty or in which \<^verbatim>\<open>atoll\<close> finds no digit to
  convert gives the total 0 and is accepted like any other. Two handshakes with at least
  five fields each that agree in the first and the third field are handled alike in every
  state, whatever their other fields are.
\<close>

theorem C10_handshake_metadata:
  assumes dec: "unpack buf = Inr p" "ptype p = PT_HANDSHAKE"
    and parts: "parts = split (c_string (payload p)) 0x7C"
  shows
   "(length parts < 5 \<longrightarrow>
       server_step win (Recv k buf t1 t2 fo) st = (st, [pack (error_packet ''bad handshake'')]))
    \<and> (5 \<le> length parts \<and> length (cleanup_old_session (sessions st) k) < 100 \<and> fo \<longrightarrow>
         (\<exists>s. server_step win (Recv k buf t1 t2 fo) st =
                 (st\<lparr>sessions := cleanup_old_session (sessions st) k @ [s]\<rparr>,
                  [pack (handshake_ack_packet (total_s s) win)])
              \<and> key s = take 255 k \<and> ofs s = [] \<and> expected s = 0 \<and> received s = 0
              \<and> filename s = take 255 (parts ! 0)
              \<and> total_s s = size_t_of (atoll (parts ! 2))
              \<and> (non_numeric (parts ! 2) \<longrightarrow> total_s s = 0)))
    \<and> (\<forall>buf' p'. unpack buf' = Inr p' \<and> ptype p' = PT_HANDSHAKE
          \<and> 5 \<le> length parts \<and> 5 \<le> length (split (c_string (payload p')) 0x7C)
          \<and> split (c_string (payload p')) 0x7C ! 0 = parts ! 0
          \<and> split (c_string (payload p')) 0x7C ! 2 = parts ! 2
          \<longrightarrow> server_step win (Recv k buf' t1 t2 fo) st = server_step win (Recv k buf t1 t2 fo) st)"
proof (intro conjI allI impI)
  assume "length parts < 5"
  then show "server_step win (Recv k buf t1 t2 fo) st = (st, [pack (error_packet ''bad handshake'')])"
    by (simp add: step_handshake [OF dec] handle_handshake_short parts del: server_step.simps)
next
  assume a: "5 \<le> length parts \<and> length (cleanup_old_session (sessions st) k) < 100 \<and> fo"
  let ?s = "new_session k parts t1 t2"
  have "server_step win (Recv k buf t1 t2 fo) st =
                 (st\<lparr>sessions := cleanup_old_session (sessions st) k @ [?s]\<rparr>,
                  [pack (handshake_ack_packet (total_s ?s) win)])"
    using a by (simp add: step_handshake [OF dec] handle_handshake_accept parts
        del: server_step.simps)
  moreover have "key ?s = take 255 k \<and> ofs ?s = [] \<and> expected ?s = 0 \<and> received ?s = 0
              \<and> filename ?s = take 255 (parts ! 0)
              \<and> total_s ?s = size_t_of (atoll (parts ! 2))"
    by (simp add: new_session_def)
  moreover have "non_numeric (parts ! 2) \<longrightarrow> total_s ?s = 0"
    by (simp add: new_session_def atoll_non_numeric size_t_of_def)
  ultimately show "\<exists>s. server_step win (Recv k buf t1 t2 fo) st =
                 (st\<lparr>sessions := cleanup_old_session (sessions st) k @ [s]\<rparr>,
                  [pack (handshake_ack_packet (total_s s) win)])
              \<and> key s = take 255 k \<and> ofs s = [] \<and> expected s = 0 \<and> received s = 0
              \<and> filename s = take 255 (parts ! 0)
              \<and> total_s s = size_t_of (atoll (parts ! 2))
              \<and> (non_numeric (parts ! 2) \<longrightarrow> total_s s = 0)"
    by blast
next
  fix buf' p'
  assume "unpack buf' = Inr p' \<and> ptype p' = PT_HANDSHAKE
          \<and> 5 \<le> length parts \<and> 5 \<le> length (split (c_string (payload p')) 0x7C)
          \<and> split (c_string (payload p')) 0x7C ! 0 = parts ! 0
          \<and> split (c_string (payload p')) 0x7C ! 2 = parts ! 2"
  then have d: "unpack buf' = Inr p'" "ptype p' = PT_HANDSHAKE"
    and f: "5 \<le> length (split (c_string (payload p)) 0x7C)"
      "5 \<le> length (split (c_string (payload p')) 0x7C)"
      "split (c_string (payload p')) 0x7C ! 0 = split (c_string (payload p)) 0x7C ! 0"
      "split (c_string (payload p')) 0x7C ! 2 = split (c_string (payload p)) 0x7C ! 2"
    by (simp_all add: parts)
  show "server_step win (Recv k buf' t1 t2 fo) st = server_step win (Recv k buf t1 t2 fo) st"
    by (simp add: step_handshake [OF dec] step_handshake [OF d]
        handle_handshake_same_fields [OF f] del: server_step.simps)
qed

lemma unpack_demo_handshake_text:
  "unpack demo_handshake_text = Inr \<lparr> magic0 = 0x52, magic1 = 0x55, version = 1, ptype = 0, seq = 0,
     total_p = 0, length_p = 9, window_p = 0, checksum = 0,
     payload = [0x66, 0x7C, 0x33, 0x7C, 0x78, 0x7C, 0x31, 0x7C, 0x38] \<rparr>"
  by (simp add: demo_handshake_text_def unpack_def HEADER_SIZE_def VERSION_def rd16_def rd32_def)

lemma split_demo_text:
  "split (c_string [0x66, 0x7C, 0x33, 0x7C, 0x78, 0x7C, 0x31, 0x7C, 0x38]) 0x7C
     = [[0x66], [0x33], [0x78], [0x31], [0x38]]"
  by (simp add: split_def c_string_def)

theorem C10_handshake_metadata_witness:
  "non_numeric [0x78]
   \<and> (\<exists>s. server_step 8 (Recv demo_key demo_handshake_text 1000 1001 True) (server_init 0) =
           ((server_init 0)\<lparr>sessions := [s]\<rparr>, [pack (handshake_ack_packet 0 8)])
        \<and> filename s = [0x66] \<and> total_s s = 0 \<and> expected s = 0)"
proof -
  have n: "non_numeric [0x78]"
    by (simp add: non_numeric_def leading_digits_def isspace_def isdigit_def)
  have ty: "ptype \<lparr> magic0 = 0x52, magic1 = 0x55, version = 1, ptype = 0, seq = 0,
     total_p = 0, length_p = 9, window_p = 0, checksum = 0,
     payload = [0x66, 0x7C, 0x33, 0x7C, 0x78, 0x7C, 0x31, 0x7C, 0x38] \<rparr> = PT_HANDSHAKE"
    by (simp add: PT_HANDSHAKE_def)
  have pt: "[[0x66], [0x33], [0x78], [0x31], [0x38]] = split (c_string (payload
     \<lparr> magic0 = 0x52, magic1 = 0x55, version = 1, ptype = 0, seq = 0,
     total_p = 0, length_p = 9, window_p = 0, checksum = 0,
     payload = [0x66, 0x7C, 0x33, 0x7C, 0x78, 0x7C, 0x31, 0x7C, 0x38] \<rparr>)) 0x7C"
    by (simp add: split_demo_text)
  from C10_handshake_metadata [OF unpack_demo_handshake_text ty pt,
      of 8 demo_key 1000 1001 True "server_init 0"] n
  have "\<exists>s. server_step 8 (Recv demo_key demo_handshake_text 1000 1001 True) (server_init 0) =
                 ((server_init 0)\<lparr>sessions := [s]\<rparr>, [pack (handshake_ack_packet (total_s s) 8)])
              \<and> filename s = [0x66] \<and> total_s s = 0 \<and> expected s = 0"
    by (simp add: server_init_def del: server_step.simps) blast
  then have "\<exists>s. server_step 8 (Recv demo_key demo_handshake_text 1000 1001 True) (server_init 0) =
           ((server_init 0)\<lparr>sessions := [s]\<rparr>, [pack (handshake_ack_packet 0 8)])
        \<and> filename s = [0x66] \<and> total_s s = 0 \<and> expected s = 0"
    by (metis (no_types, lifting))
  with n show ?thesis by simp
qed

subsection \<open>Sender: the window\<close>

lemma ten_chunks_eq: "ten_chunks = replicate 10 (Some [0x61])"
  by code_simp

declare fill_window.simps [simp del]

declare dec.simps [simp del]

lemma fill_window_send:
  "nextseq st < tot \<Longrightarrow> nextseq st < base st + unat win \<Longrightarrow>
   fill_window tot win now st =
     (case fill_window tot win now ((arm_timer now st)\<lparr>nextseq := nextseq st + 1\<rparr>) of
        (st', txs) \<Rightarrow> (st', send_data tot win (chunks st) (nextseq st) # txs))"
  by (subst fill_window.simps) simp

lemma fill_window_stop:
  "\<not> (nextseq st < tot \<and> nextseq st < base st + unat win) \<Longrightarrow>
   fill_window tot win now st = (st, [])"
  by (subst fill_window.simps) auto

lemma ten_fill:
  "fill_window 10 2 100 (gbn_init ten_chunks) =
     (\<lparr> base = 0, nextseq = 2, retries = 0, timer_running = True, timer_t0 = 100,
        chunks = ten_chunks \<rparr>,
      [Datagram (pack (data_packet 10 2 0 [0x61])), Datagram (pack (data_packet 10 2 1 [0x61]))])"
  by (simp add: fill_window_send fill_window_stop gbn_init_def arm_timer_def send_data_def)
     (simp add: ten_chunks_eq)

lemma unpack_ack5_turn:
  "rx ack5_turn = Some [0x52, 0x55, 1, 3,  0, 0, 0, 5,  0, 0, 0, 0,  0, 0,  0, 0,  0, 0, 0, 0]"
  "t_fill ack5_turn = 100" "t_ack ack5_turn = 101" "t_check ack5_turn = 102" "t_rearm ack5_turn = 103"
  by (simp_all add: ack5_turn_def)

lemma ten_free: "free_chunks 0 6 ten_chunks =
  [None, None, None, None, None, None, Some [0x61], Some [0x61], Some [0x61], Some [0x61]]"
  by (simp add: free_chunks_def ten_chunks_eq eval_nat_numeral)

lemma ten_inbound:
  "on_inbound 101 (rx ack5_turn) \<lparr> base = 0, nextseq = 2, retries = 0, timer_running = True,
        timer_t0 = 100, chunks = ten_chunks \<rparr> =
     Some \<lparr> base = 6, nextseq = 2, retries = 0, timer_running = True, timer_t0 = 101,
        chunks = [None, None, None, None, None, None,
                  Some [0x61], Some [0x61], Some [0x61], Some [0x61]] \<rparr>"
  by (simp add: on_inbound_def unpack_ack5_turn unpack_ack5 PT_ACK_def ten_free)
     (simp add: ten_chunks_eq)

lemma ten_turn:
  "gbn_turn ten_args 10 ack5_turn (gbn_init ten_chunks) =
     Continue \<lparr> base = 6, nextseq = 2, retries = 0, timer_running = True, timer_t0 = 101,
        chunks = [None, None, None, None, None, None,
                  Some [0x61], Some [0x61], Some [0x61], Some [0x61]] \<rparr>
       [Datagram (pack (data_packet 10 2 0 [0x61])), Datagram (pack (data_packet 10 2 1 [0x61]))]"
proof -
  have w: "window ten_args = 2" "timeout_ms ten_args = 300" by (simp_all add: ten_args_def)
  show ?thesis
    by (simp add: gbn_turn_def w ten_fill unpack_ack5_turn(2-5) ten_inbound on_timeout_def)
qed

lemma ten_next_turn:
  "gbn_turn ten_args 10 quiet_turn
     \<lparr> base = 6, nextseq = 2, retries = 0, timer_running = True, timer_t0 = 101,
        chunks = [None, None, None, None, None, None,
                  Some [0x61], Some [0x61], Some [0x61], Some [0x61]] \<rparr> =
   Continue \<lparr> base = 6, nextseq = 8, retries = 0, timer_running = True, timer_t0 = 101,
        chunks = [None, None, None, None, None, None,
                  Some [0x61], Some [0x61], Some [0x61], Some [0x61]] \<rparr>
     [FreedChunk 2, FreedChunk 3, FreedChunk 4, FreedChunk 5,
      Datagram (pack (data_packet 10 2 6 [0x61])), Datagram (pack (data_packet 10 2 7 [0x61]))]"
proof -
  have w: "window ten_args = 2" "timeout_ms ten_args = 300" by (simp_all add: ten_args_def)
  have q: "rx quiet_turn = None" "t_fill quiet_turn = 200" "t_ack quiet_turn = 201"
    "t_check quiet_turn = 202" "t_rearm quiet_turn = 203"
    by (simp_all add: quiet_turn_def)
  show ?thesis
    by (simp add: gbn_turn_def w q fill_window_send fill_window_stop arm_timer_def send_data_def
        on_inbound_def on_timeout_def)
qed

text \<open>
  Claim C2 is what the send loop is meant to keep, and the code breaks it. The transfer has
  ten chunks and a window of two. In the first turn of the loop the sender transmits the
  packets 0 and 1; an ACK with sequence number 5 then arrives, passes the test
  \<^verbatim>\<open>p.seq >= base\<close>, and moves the base to 6 while the next sequence number is 2: the
  loop reaches its next turn with \<open>base > next_seq\<close>. In that turn the window is filled
  from 2, so that the packets 2 to 5 are sent from chunks that have been freed.
\<close>

theorem C2_window_invariant_broken:
  "window_inv (window ten_args) 10 (gbn_init ten_chunks)
   \<and> base (gbn_init ten_chunks) < 10
   \<and> gbn_turn ten_args 10 ack5_turn (gbn_init ten_chunks) =
       Continue \<lparr> base = 6, nextseq = 2, retries = 0, timer_running = True, timer_t0 = 101,
          chunks = [None, None, None, None, None, None,
                    Some [0x61], Some [0x61], Some [0x61], Some [0x61]] \<rparr>
         [Datagram (pack (data_packet 10 2 0 [0x61])), Datagram (pack (data_packet 10 2 1 [0x61]))]
   \<and> \<not> window_inv (window ten_args) 10
         \<lparr> base = 6, nextseq = 2, retries = 0, timer_running = True, timer_t0 = 101,
          chunks = [None, None, None, None, None, None,
                    Some [0x61], Some [0x61], Some [0x61], Some [0x61]] \<rparr>
   \<and> gbn_turn ten_args 10 quiet_turn
         \<lparr> base = 6, nextseq = 2, retries = 0, timer_running = True, timer_t0 = 101,
          chunks = [None, None, None, None, None, None,
                    Some [0x61], Some [0x61], Some [0x61], Some [0x61]] \<rparr> =
       Continue \<lparr> base = 6, nextseq = 8, retries = 0, timer_running = True, timer_t0 = 101,
          chunks = [None, None, None, None, None, None,
                    Some [0x61], Some [0x61], Some [0x61], Some [0x61]] \<rparr>
         [FreedChunk 2, FreedChunk 3, FreedChunk 4, FreedChunk 5,
          Datagram (pack (data_packet 10 2 6 [0x61])), Datagram (pack (data_packet 10 2 7 [0x61]))]"
  by (simp add: ten_turn ten_next_turn) (simp add: window_inv_def gbn_init_def ten_args_def)

subsection \<open>Sender: acknowledgements of packets that were sent\<close>

lemma arm_timer_fields:
  "base (arm_timer now st) = base st" "nextseq (arm_timer now st) = nextseq st"
  "chunks (arm_timer now st) = chunks st"
  by (simp_all add: arm_timer_def)

lemma fill_window_result:
  "fill_window tot win now st = (st', tx) \<Longrightarrow>
   base st' = base st \<and> chunks st' = chunks st
   \<and> nextseq st' = max (nextseq st) (min (base st + unat win) tot)"
proof (induction tot win now st arbitrary: st' tx rule: fill_window.induct)
  case (1 tot win now st)
  show ?case
  proof (cases "nextseq st < tot \<and> nextseq st < base st + unat win")
    case True
    obtain st1 tx1 where r: "fill_window tot win now ((arm_timer now st)\<lparr>nextseq := nextseq st + 1\<rparr>) = (st1, tx1)"
      by fastforce
    from True r "1.prems" have e: "st' = st1"
      by (simp add: fill_window_send)
    from "1.IH" [OF True r] True show ?thesis
      by (auto simp: e arm_timer_fields)
  next
    case False
    with "1.prems" have "st' = st" by (simp add: fill_window_stop)
    with False show ?thesis by auto
  qed
qed

lemma unat_seq_succ:
  assumes "unat (w::u32) < n" "n < 2 ^ 32"
  shows "unat (w + 1) = unat w + 1"
proof -
  from assms have "unat w + 1 < 2 ^ 32" by simp
  then show ?thesis by (simp add: unat_word_ariths)
qed

lemma on_inbound_in_range:
  assumes r: "on_inbound now r st = Some st'"
    and rng: "ack_in_range r (nextseq st)"
    and le: "base st \<le> nextseq st" and small: "nextseq st < 2 ^ 32"
  shows "nextseq st' = nextseq st \<and> base st \<le> base st' \<and> base st' \<le> nextseq st"
proof (cases r)
  case None
  with r le show ?thesis by (simp add: on_inbound_def)
next
  case (Some buf)
  show ?thesis
  proof (cases "unpack buf")
    case (Inl e)
    with r le Some show ?thesis by (simp add: on_inbound_def)
  next
    case (Inr p)
    show ?thesis
    proof (cases "ptype p = PT_ACK \<and> base st \<le> unat (seq p)")
      case True
      with rng Some Inr have lt: "unat (seq p) < nextseq st"
        by (simp add: ack_in_range_def)
      then have s: "unat (seq p + 1) = unat (seq p) + 1"
        using small by (rule unat_seq_succ)
      from r Some Inr True lt show ?thesis
        by (auto simp: on_inbound_def s Let_def split: if_splits)
    next
      case False
      with r le Some Inr show ?thesis by (auto simp: on_inbound_def)
    qed
  qed
qed

lemma on_timeout_fields:
  "on_timeout args tot tc tr st = Some (st', tx) \<Longrightarrow> base st' = base st \<and> nextseq st' = nextseq st"
  by (auto simp: on_timeout_def split: if_splits)

text \<open>
  What does hold: a turn of the send loop keeps the invariant of the window whenever the
  datagram it reads is not an ACK for a packet that has not been sent yet, in a transfer
  of fewer than \<open>2 ^ 32\<close> packets.
\<close>

lemma gbn_turn_keeps_window_inv:
  assumes inv: "window_inv (window args) tot st"
    and small: "tot < 2 ^ 32"
    and turn: "gbn_turn args tot t st = Continue st' tx"
    and rng: "ack_in_range (rx t) (min (base st + unat (window args)) tot)"
  shows "window_inv (window args) tot st'"
proof -
  obtain st1 tx1 where f: "fill_window tot (window args) (t_fill t) st = (st1, tx1)"
    by fastforce
  from fill_window_result [OF f] inv
  have f1: "base st1 = base st" "nextseq st1 = min (base st + unat (window args)) tot"
    by (auto simp: window_inv_def)
  from turn f obtain st2 where i: "on_inbound (t_ack t) (rx t) st1 = Some st2"
    by (auto simp: gbn_turn_def split: option.splits)
  have "nextseq st2 = nextseq st1 \<and> base st1 \<le> base st2 \<and> base st2 \<le> nextseq st1"
    using i rng small inv f1 by (intro on_inbound_in_range) (auto simp: window_inv_def)
  then have i2: "nextseq st2 = nextseq st1" "base st1 \<le> base st2" "base st2 \<le> nextseq st1"
    by simp_all
  from turn f i obtain tx2 where "on_timeout args tot (t_check t) (t_rearm t) st2 = Some (st', tx2)"
    by (auto simp: gbn_turn_def split: option.splits)
  from on_timeout_fields [OF this] have "base st' = base st2" "nextseq st' = nextseq st2"
    by simp_all
  with f1 i2 show ?thesis by (auto simp: window_inv_def)
qed

lemma ack_max_seq_rewinds_base:
  assumes "unpack buf = Inr p" "ptype p = PT_ACK" "seq p = 0xFFFFFFFF"
    and "base st \<le> 4294967295" "nextseq st \<noteq> 0"
  shows "on_inbound now (Some buf) st =
           Some (st\<lparr>base := 0, chunks := chunks st, timer_running := True, timer_t0 := now\<rparr>)"
  using assms by (simp add: on_inbound_def free_chunks_def)

subsection \<open>The empty file\<close>

lemma total_packets_empty: "c \<noteq> 0 \<Longrightarrow> total_packets 0 c = Some 0"
proof -
  assume "c \<noteq> 0"
  then have "(c - 1) div c = 0"
    using div_word_less less_eq_dec_self_iff_eq linorder_le_less_linear by blast
  with \<open>c \<noteq> 0\<close> show ?thesis by (simp add: total_packets_def)
qed

lemma gbn_loop_nothing: "gbn_loop args 0 ts st = Completed st []"
  by (cases ts) simp_all

lemma client_main_empty:
  assumes "chunk args \<noteq> 0"
  shows "client_main args [] env =
     (case exchange PT_HANDSHAKE_ACK (nat (max_retries args)) (hs_rx env) of
        (ackd, n) \<Rightarrow>
          (case exchange PT_FIN_ACK (nat (max_retries args)) (fin_rx env) of
             (ok, m) \<Rightarrow>
               if \<not> ackd
               then Returned 2 (replicate n (Datagram (pack (handshake_packet args 0 0))))
               else Returned (if ok then 0 else 4)
                      (replicate n (Datagram (pack (handshake_packet args 0 0)))
                       @ replicate m (Datagram (pack (control_packet PT_FIN))))))"
  using total_packets_empty [OF assms]
  by (simp add: client_main_def gbn_loop_nothing fin_phase_def split: prod.splits)

lemma length_handshake_meta: "length (handshake_meta args n tot) < 65536"
  by (simp add: handshake_meta_def)

lemma handshake_not_data: "\<not> is_data (Datagram (pack (handshake_packet args n tot)))"
  using unpack_pack [of "handshake_packet args n tot"] length_handshake_meta [of args n tot]
  by (simp add: is_data_def handshake_packet_def control_packet_def PT_HANDSHAKE_def PT_DATA_def)

lemma fin_not_data: "\<not> is_data (Datagram (pack (control_packet PT_FIN)))"
  using unpack_pack [of "control_packet PT_FIN"]
  by (simp add: is_data_def control_packet_def PT_FIN_def PT_DATA_def)

text \<open>
  Claim C9. For a source file of zero bytes and any chunk size of at least 1: the total is
  0; the send loop ends before its first turn, whatever would arrive, without sending
  anything or touching its state; the sender therefore goes from the handshake straight to
  FIN: what it sends is the HANDSHAKE datagram, once per attempt, followed, if the
  handshake was acknowledged, by the FIN datagram, once per attempt, and its exit code is 2,
  0 or 4; none of the datagrams sent is a DATA datagram.
\<close>

theorem C9_empty_file:
  assumes "chunk args \<noteq> 0"
  shows "total_packets (of_nat (length ([] :: u8 list))) (chunk args) = Some 0
   \<and> (\<forall>ts st. gbn_loop args 0 ts st = Completed st [])
   \<and> (\<exists>ackd n ok m.
         exchange PT_HANDSHAKE_ACK (nat (max_retries args)) (hs_rx env) = (ackd, n)
         \<and> exchange PT_FIN_ACK (nat (max_retries args)) (fin_rx env) = (ok, m)
         \<and> client_main args [] env =
             (if \<not> ackd
              then Returned 2 (replicate n (Datagram (pack (handshake_packet args 0 0))))
              else Returned (if ok then 0 else 4)
                     (replicate n (Datagram (pack (handshake_packet args 0 0)))
                      @ replicate m (Datagram (pack (control_packet PT_FIN))))))
   \<and> (\<forall>x\<in>set (sent_of (client_main args [] env)). \<not> is_data x)"
proof (intro conjI)
  show "total_packets (of_nat (length ([] :: u8 list))) (chunk args) = Some 0"
    using total_packets_empty [OF assms] by simp
  show "\<forall>ts st. gbn_loop args 0 ts st = Completed st []"
    by (simp add: gbn_loop_nothing)
  obtain ackd n where h: "exchange PT_HANDSHAKE_ACK (nat (max_retries args)) (hs_rx env) = (ackd, n)"
    by fastforce
  obtain ok m where f: "exchange PT_FIN_ACK (nat (max_retries args)) (fin_rx env) = (ok, m)"
    by fastforce
  have c: "client_main args [] env =
             (if \<not> ackd
              then Returned 2 (replicate n (Datagram (pack (handshake_packet args 0 0))))
              else Returned (if ok then 0 else 4)
                     (replicate n (Datagram (pack (handshake_packet args 0 0)))
                      @ replicate m (Datagram (pack (control_packet PT_FIN)))))"
    by (simp add: client_main_empty [OF assms] h f)
  from h f c show "\<exists>ackd n ok m.
         exchange PT_HANDSHAKE_ACK (nat (max_retries args)) (hs_rx env) = (ackd, n)
         \<and> exchange PT_FIN_ACK (nat (max_retries args)) (fin_rx env) = (ok, m)
         \<and> client_main args [] env =
             (if \<not> ackd
              then Returned 2 (replicate n (Datagram (pack (handshake_packet args 0 0))))
              else Returned (if ok then 0 else 4)
                     (replicate n (Datagram (pack (handshake_packet args 0 0)))
                      @ replicate m (Datagram (pack (control_packet PT_FIN)))))"
    by blast
  show "\<forall>x\<in>set (sent_of (client_main args [] env)). \<not> is_data x"
    using handshake_not_data [of args 0 0] fin_not_data
    by (auto simp: c)
qed

lemma exchange_first:
  "0 < n \<Longrightarrow> awaited t r \<Longrightarrow> exchange t n (r # rs) = (True, 1)"
  by (cases n) simp_all

lemma empty_env_replies:
  "exchange PT_HANDSHAKE_ACK (nat (max_retries empty_args)) (hs_rx empty_env) = (True, 1)"
  "exchange PT_FIN_ACK (nat (max_retries empty_args)) (fin_rx empty_env) = (True, 1)"
  by (simp_all add: empty_env_def empty_args_def exchange_first awaited_def unpack_def
      HEADER_SIZE_def VERSION_def rd16_def PT_HANDSHAKE_ACK_def PT_FIN_ACK_def)

theorem C9_empty_file_witness:
  "chunk empty_args \<noteq> 0
   \<and> client_main empty_args [] empty_env =
       Returned 0 [Datagram (pack (handshake_packet empty_args 0 0)),
                   Datagram (pack (control_packet PT_FIN))]"
proof -
  have c: "chunk empty_args \<noteq> 0" by (simp add: empty_args_def)
  from C9_empty_file [OF c, of empty_env] empty_env_replies
  have "client_main empty_args [] empty_env =
       Returned 0 (replicate 1 (Datagram (pack (handshake_packet empty_args 0 0)))
                   @ replicate 1 (Datagram (pack (control_packet PT_FIN))))"
    by auto
  with c show ?thesis by simp
qed

end
